theory Spec2Isabelle
  imports Complex_Main "HOL-Library.Char_ord" "HOL-Library.List_Lexorder"
    "HOL-Library.Product_Lexorder"
begin

section \<open>The record store\<close>

text \<open>
  The dashboard script \<^verbatim>\<open>src/dashboard.py\<close> reads one CSV file into a pandas data frame
  \<^verbatim>\<open>df\<close> with the columns \<^verbatim>\<open>source\<close>, \<^verbatim>\<open>topic_name\<close>, \<^verbatim>\<open>election_period\<close>,
  \<^verbatim>\<open>date\<close>, \<^verbatim>\<open>article_id\<close> and \<^verbatim>\<open>text_clean\<close>. A data frame is modelled as the list of
  its rows, in row order. The \<^verbatim>\<open>date\<close> column is parsed to timestamps, which pandas keeps
  as a whole number of nanoseconds; only equality and order of dates are used. Of the
  article id only equality is used. Strings are byte strings ordered as Python orders
  \<^verbatim>\<open>str\<close> values (code point by code point, a proper prefix first); the model is
  exact for ASCII text. \<^verbatim>\<open>read_csv\<close> reads an empty field as a missing value: the text of
  an article is \<open>None\<close> when its field is empty. The other columns have no missing
  values in the data model.
\<close>

type_synonym timestamp = int

record article =
  source :: string
  topic_name :: string
  election_period :: string
  date :: timestamp
  article_id :: nat
  text_clean :: "string option"

type_synonym frame = "article list"

text \<open>The exceptions that the pandas and Python operations of the script can raise.\<close>

datatype error = IndexError | KeyError | ValueError

section \<open>pandas primitives\<close>

text \<open>\<^verbatim>\<open>Series.unique()\<close>: the distinct values in order of first appearance.\<close>

fun unique :: "'a list \<Rightarrow> 'a list" where
  "unique [] = []"
| "unique (x # xs) = x # unique (filter (\<lambda>y. y \<noteq> x) xs)"

text \<open>
  \<^verbatim>\<open>df.groupby(keys).size().reset_index(name=...)\<close>: one row per key that occurs, the
  keys in ascending order, with the number of rows that have the key.
\<close>

definition groupby_size :: "('r \<Rightarrow> 'k::linorder) \<Rightarrow> 'r list \<Rightarrow> ('k \<times> nat) list" where
  "groupby_size key df =
     map (\<lambda>k. (k, length (filter (\<lambda>r. key r = k) df))) (sort (unique (map key df)))"

text \<open>
  \<^verbatim>\<open>sort_values(..., ascending=False)\<close> on a numeric key, with pandas' default sort kind:
  the rows in descending order of the key. The default kind fixes no order among rows
  with equal keys, and the order they come out in differs between versions of pandas and
  NumPy. The script names no sort kind and no second key, so the model takes that order
  as a parameter: \<open>tie\<close> gives every position of the input a rank, and rows with equal
  keys come out by ascending rank of their positions. With \<open>first_seen\<close> rows with equal
  keys keep their order; with \<open>last_seen\<close> they come out in reverse order.
\<close>

definition sort_values_desc ::
    "(nat \<Rightarrow> int) \<Rightarrow> ('a \<Rightarrow> 'b::{linorder,uminus}) \<Rightarrow> 'a list \<Rightarrow> 'a list" where
  "sort_values_desc tie key rows =
     map snd (sort_key (\<lambda>(i, r). (- key r, tie i)) (enumerate 0 rows))"

definition first_seen :: "nat \<Rightarrow> int" where
  "first_seen i = int i"

definition last_seen :: "nat \<Rightarrow> int" where
  "last_seen i = - int i"

text \<open>
  \<^verbatim>\<open>Series.value_counts()\<close>: the distinct values with their numbers of occurrences,
  sorted by descending count. Before the sort the values stand in the order of their
  first occurrence.
\<close>

definition value_counts :: "(nat \<Rightarrow> int) \<Rightarrow> 'a list \<Rightarrow> ('a \<times> nat) list" where
  "value_counts tie xs =
     sort_values_desc tie (\<lambda>(k, n). int n) (map (\<lambda>k. (k, count_list xs k)) (unique xs))"

text \<open>\<^verbatim>\<open>.head(k)\<close> keeps the first \<open>k\<close> rows.\<close>

definition head :: "nat \<Rightarrow> 'a list \<Rightarrow> 'a list" where
  "head k rows = take k rows"

text \<open>\<^verbatim>\<open>.iloc[0]\<close> and \<^verbatim>\<open>.index[0]\<close> raise \<^verbatim>\<open>IndexError\<close> on an empty object.\<close>

definition iloc0 :: "'a list \<Rightarrow> error + 'a" where
  "iloc0 rows = (case rows of [] \<Rightarrow> Inl IndexError | r # _ \<Rightarrow> Inr r)"

section \<open>Sidebar filter (lines 79--83)\<close>

definition df_filt :: "frame \<Rightarrow> string list \<Rightarrow> string list \<Rightarrow> string list \<Rightarrow> frame" where
  "df_filt df selected_sources selected_topics selected_period =
     filter (\<lambda>r. source r \<in> set selected_sources
                \<and> topic_name r \<in> set selected_topics
                \<and> election_period r \<in> set selected_period) df"

section \<open>Election shift (lines 108--136)\<close>

text \<open>The Streamlit elements the section shows: \<^verbatim>\<open>st.metric(label, value, delta)\<close> and
  \<^verbatim>\<open>st.info(body)\<close>.\<close>

datatype widget = Metric string string string | Info string

text \<open>Lines 110--115: the number of rows per election period and topic.\<close>

definition rank :: "frame \<Rightarrow> ((string \<times> string) \<times> nat) list" where
  "rank df = groupby_size (\<lambda>r. (election_period r, topic_name r)) df"

text \<open>
  Lines 118--122: \<^verbatim>\<open>rank.pivot(index="topic_name", columns="election_period",
  values="n").fillna(0)\<close>. The table has one row per topic of \<^verbatim>\<open>rank\<close> and one column per
  election period of \<^verbatim>\<open>rank\<close>, both in ascending order; a cell with no row in \<^verbatim>\<open>rank\<close>
  is missing and filled with 0. \<^verbatim>\<open>pivot\<close> raises \<^verbatim>\<open>ValueError\<close> when two rows have the
  same index and column.
\<close>

record pivot_table =
  pv_index :: "string list"
  pv_columns :: "string list"
  pv_cell :: "string \<Rightarrow> string \<Rightarrow> nat"

definition pivot_fillna :: "((string \<times> string) \<times> nat) list \<Rightarrow> error + pivot_table" where
  "pivot_fillna rk =
     (if distinct (map fst rk)
      then Inr \<lparr>pv_index = sort (unique (map (\<lambda>((p, t), n). t) rk)),
                pv_columns = sort (unique (map (\<lambda>((p, t), n). p) rk)),
                pv_cell = (\<lambda>p t. case map_of rk (p, t) of None \<Rightarrow> 0 | Some n \<Rightarrow> n)\<rparr>
      else Inl ValueError)"

text \<open>\<^verbatim>\<open>pivot[c]\<close>: the column \<open>c\<close> in index order; \<^verbatim>\<open>KeyError\<close> when there is none.\<close>

definition column :: "pivot_table \<Rightarrow> string \<Rightarrow> error + nat list" where
  "column pv c =
     (if c \<in> set (pv_columns pv) then Inr (map (pv_cell pv c) (pv_index pv))
      else Inl KeyError)"

text \<open>
  \<^verbatim>\<open>Series.rank(ascending=False)\<close> with pandas' default \<^verbatim>\<open>method="average"\<close>: the
  values are ranked from the largest down, and equal values all get the mean of the
  positions they occupy. A value with \<open>g\<close> larger values and \<open>e\<close> equal values (itself
  included) occupies the positions \<open>g + 1, ..., g + e\<close>, of mean \<open>g + (e + 1) / 2\<close>.
  The ranks are whole or half numbers, which the floating-point column holds exactly.
\<close>

definition average_rank :: "nat list \<Rightarrow> nat \<Rightarrow> rat" where
  "average_rank col x =
     of_nat (length (filter (\<lambda>y. x < y) col))
     + (of_nat (length (filter (\<lambda>y. y = x) col)) + 1) / 2"

definition rank_desc :: "nat list \<Rightarrow> rat list" where
  "rank_desc col = map (average_rank col) col"

text \<open>
  Lines 118--126: the pivot table with the three added columns. The model keeps the
  columns the script reads: the two period columns and the three rank columns.
\<close>

record pivot_row =
  topic :: string
  pre_election :: nat
  post_election :: nat
  rank_pre :: rat
  rank_post :: rat
  rank_change :: rat

definition pivot :: "frame \<Rightarrow> error + pivot_row list" where
  "pivot df =
     (case pivot_fillna (rank df) of Inl e \<Rightarrow> Inl e | Inr pv \<Rightarrow>
      (case column pv ''pre_election'' of Inl e \<Rightarrow> Inl e | Inr pre \<Rightarrow>
       (case column pv ''post_election'' of Inl e \<Rightarrow> Inl e | Inr post \<Rightarrow>
          Inr (map (\<lambda>(t, a, b, ra, rb).
                     \<lparr>topic = t, pre_election = a, post_election = b,
                      rank_pre = ra, rank_post = rb, rank_change = ra - rb\<rparr>)
                (zip (pv_index pv)
                  (zip pre (zip post (zip (rank_desc pre) (rank_desc post)))))))))"

text \<open>Line 128: \<^verbatim>\<open>pivot.sort_values("rank_change", ascending=False).head(1)\<close>.\<close>

definition top_mover :: "(nat \<Rightarrow> int) \<Rightarrow> frame \<Rightarrow> error + pivot_row list" where
  "top_mover tie df =
     (case pivot df of Inl e \<Rightarrow> Inl e
      | Inr pv \<Rightarrow> Inr (head 1 (sort_values_desc tie rank_change pv)))"

text \<open>
  The formatting of lines 132--133. \<^verbatim>\<open>str.title()\<close> starts every run of letters with
  an upper-case letter and lower-cases the rest of the run. The model cases the ASCII
  letters and so gives the label of a topic name in ASCII; a letter outside ASCII, which
  Python would case too, is left as it is. \<^verbatim>\<open>int(x)\<close> truncates a float towards zero.
\<close>

definition replace_underscore :: "string \<Rightarrow> string" where
  "replace_underscore s = map (\<lambda>c. if c = CHR ''_'' then CHR '' '' else c) s"

definition islower :: "char \<Rightarrow> bool" where
  "islower c \<longleftrightarrow> CHR ''a'' \<le> c \<and> c \<le> CHR ''z''"

definition isupper :: "char \<Rightarrow> bool" where
  "isupper c \<longleftrightarrow> CHR ''A'' \<le> c \<and> c \<le> CHR ''Z''"

definition upper :: "char \<Rightarrow> char" where
  "upper c = char_of (of_char c - (32 :: nat))"

definition lower :: "char \<Rightarrow> char" where
  "lower c = char_of (of_char c + (32 :: nat))"

fun title_from :: "bool \<Rightarrow> string \<Rightarrow> string" where
  "title_from previous_is_cased [] = []"
| "title_from previous_is_cased (c # cs) =
     (if islower c
        then (if previous_is_cased then c else upper c) # title_from True cs
      else if isupper c
        then (if previous_is_cased then lower c else c) # title_from True cs
      else c # title_from False cs)"

definition title :: "string \<Rightarrow> string" where
  "title s = title_from False s"

definition py_int :: "rat \<Rightarrow> int" where
  "py_int x = (if 0 \<le> x then \<lfloor>x\<rfloor> else \<lceil>x\<rceil>)"

fun str_nat :: "nat \<Rightarrow> string" where
  "str_nat n =
     (if n < 10 then [''0123456789'' ! n]
      else str_nat (n div 10) @ [''0123456789'' ! (n mod 10)])"

definition str_int :: "int \<Rightarrow> string" where
  "str_int i = (if i < 0 then CHR ''-'' # str_nat (nat (- i)) else str_nat (nat i))"

text \<open>
  Lines 117--136. The message of the \<^verbatim>\<open>else\<close> branch is the degraded
  ``insufficient data'' result.
\<close>

definition InsufficientData :: widget where
  "InsufficientData = Info ''Select both pre- and post-election periods.''"

definition election_shift :: "(nat \<Rightarrow> int) \<Rightarrow> frame \<Rightarrow> error + widget" where
  "election_shift tie df =
     (if {''pre_election'', ''post_election''} \<subseteq> set (map (\<lambda>((p, t), n). p) (rank df))
      then
        (case top_mover tie df of Inl e \<Rightarrow> Inl e | Inr tm \<Rightarrow>
         (case iloc0 (map topic tm) of Inl e \<Rightarrow> Inl e | Inr name \<Rightarrow>
          (case iloc0 (map rank_change tm) of Inl e \<Rightarrow> Inl e | Inr change \<Rightarrow>
             Inr (Metric ''Biggest riser'' (title (replace_underscore name))
                    (''+'' @ str_int (py_int change))))))
      else Inr InsufficientData)"

section \<open>Trends and top topics (lines 144--156, 179--184, 205--210)\<close>

text \<open>
  The script takes the most frequent topics twice, as
  \<^verbatim>\<open>df_filt["topic_name"].value_counts().head(k)\<close> with \<open>k = 6\<close> and \<open>k = 10\<close>.
\<close>

definition top_k :: "(nat \<Rightarrow> int) \<Rightarrow> nat \<Rightarrow> 'a list \<Rightarrow> ('a \<times> nat) list" where
  "top_k tie k xs = head k (value_counts tie xs)"

definition top_topics :: "(nat \<Rightarrow> int) \<Rightarrow> frame \<Rightarrow> string list" where
  "top_topics tie df = map fst (top_k tie 6 (map topic_name df))"

definition time_df :: "(nat \<Rightarrow> int) \<Rightarrow> frame \<Rightarrow> ((timestamp \<times> string) \<times> nat) list" where
  "time_df tie df =
     groupby_size (\<lambda>r. (date r, topic_name r))
       (filter (\<lambda>r. topic_name r \<in> set (top_topics tie df)) df)"

definition heat_df :: "frame \<Rightarrow> ((string \<times> string) \<times> nat) list" where
  "heat_df df = groupby_size (\<lambda>r. (source r, topic_name r)) df"

definition top_topics_df :: "(nat \<Rightarrow> int) \<Rightarrow> frame \<Rightarrow> (string \<times> nat) list" where
  "top_topics_df tie df = top_k tie 10 (map topic_name df)"

section \<open>Article explorer (lines 223--238)\<close>

text \<open>
  \<^verbatim>\<open>st.selectbox(label, options)\<close> returns the option the user picked, the first one
  until the user picks another, and \<^verbatim>\<open>None\<close> when there is no option. The position
  picked is an input of the model; the widget offers the positions of the options only.
\<close>

definition selectbox :: "'a list \<Rightarrow> nat \<Rightarrow> 'a option" where
  "selectbox options i = (if i < length options then Some (options ! i) else None)"

text \<open>Line 228. A comparison of a column with \<^verbatim>\<open>None\<close> is false in every row.\<close>

definition explorer_subset :: "frame \<Rightarrow> string option \<Rightarrow> frame" where
  "explorer_subset df selected_topic = filter (\<lambda>r. Some (topic_name r) = selected_topic) df"

text \<open>
  Lines 235--238: the text of the first row of the subset with the selected id, which is
  the missing value \<open>None\<close> when that row has no text.
\<close>

definition article_text ::
    "frame \<Rightarrow> string option \<Rightarrow> nat option \<Rightarrow> error + string option" where
  "article_text df selected_topic selected_id =
     iloc0 (map text_clean
       (filter (\<lambda>r. Some (article_id r) = selected_id) (explorer_subset df selected_topic)))"

text \<open>Lines 223--238, with the positions picked in the two select boxes.\<close>

definition article_explorer :: "frame \<Rightarrow> nat \<Rightarrow> nat \<Rightarrow> error + string option" where
  "article_explorer df i j =
     (let selected_topic = selectbox (unique (map topic_name df)) i;
          selected_id = selectbox (map article_id (explorer_subset df selected_topic)) j
      in article_text df selected_topic selected_id)"

section \<open>Notions used to state the properties\<close>

text \<open>The number of rows of a frame with a given election period and topic.\<close>

definition period_count :: "frame \<Rightarrow> string \<Rightarrow> string \<Rightarrow> nat" where
  "period_count df p t =
     length (filter (\<lambda>r. election_period r = p \<and> topic_name r = t) df)"

text \<open>The election periods and the topics that occur in a frame.\<close>

definition periods :: "frame \<Rightarrow> string set" where
  "periods df = election_period ` set df"

definition topics :: "frame \<Rightarrow> string set" where
  "topics df = topic_name ` set df"

text \<open>
  The row that the pivot table has for a topic, in closed form: the two counts, and the
  average ranks of the counts among the counts of all topics \<open>idx\<close> of the table.
\<close>

definition row_of :: "frame \<Rightarrow> string list \<Rightarrow> string \<Rightarrow> pivot_row" where
  "row_of df idx t =
     \<lparr>topic = t,
      pre_election = period_count df ''pre_election'' t,
      post_election = period_count df ''post_election'' t,
      rank_pre = average_rank (map (period_count df ''pre_election'') idx)
                   (period_count df ''pre_election'' t),
      rank_post = average_rank (map (period_count df ''post_election'') idx)
                   (period_count df ''post_election'' t),
      rank_change =
        average_rank (map (period_count df ''pre_election'') idx)
          (period_count df ''pre_election'' t)
        - average_rank (map (period_count df ''post_election'') idx)
          (period_count df ''post_election'' t)\<rparr>"

text \<open>
  Standard competition ranking, in the words of the specification: one plus the number
  of values that are strictly greater.
\<close>

definition competition_rank :: "nat list \<Rightarrow> nat \<Rightarrow> rat" where
  "competition_rank col x = 1 + of_nat (length (filter (\<lambda>y. x < y) col))"

section \<open>Example data\<close>

definition art :: "nat \<Rightarrow> string \<Rightarrow> string \<Rightarrow> article" where
  "art i p t =
     \<lparr>source = ''dfe'', topic_name = t, election_period = p, date = 0,
      article_id = i, text_clean = Some (t @ '' text'')\<rparr>"

text \<open>The scenario of the specification: 10 and 2 articles before, 3 and 9 after.\<close>

definition scenario :: frame where
  "scenario =
     map (\<lambda>i. art i ''pre_election'' ''curriculum'') [0..<10]
     @ map (\<lambda>i. art i ''pre_election'' ''funding'') [10..<12]
     @ map (\<lambda>i. art i ''post_election'' ''curriculum'') [12..<15]
     @ map (\<lambda>i. art i ''post_election'' ''funding'') [15..<24]"

text \<open>Two topics with the same count before the election.\<close>

definition tied_frame :: frame where
  "tied_frame =
     [art 0 ''pre_election'' ''funding'', art 1 ''pre_election'' ''send'',
      art 2 ''post_election'' ''funding'']"

text \<open>A frame on which the largest rank change is one and a half.\<close>

definition half_frame :: frame where
  "half_frame =
     [art 0 ''pre_election'' ''exams'', art 1 ''pre_election'' ''funding'',
      art 2 ''pre_election'' ''send'', art 3 ''pre_election'' ''send'',
      art 4 ''post_election'' ''exams'', art 5 ''post_election'' ''exams'',
      art 6 ''post_election'' ''exams'', art 7 ''post_election'' ''funding'',
      art 8 ''post_election'' ''send'', art 9 ''post_election'' ''send'']"

text \<open>A topic that occurs in a third election period only.\<close>

definition third_period_frame :: frame where
  "third_period_frame =
     [art 0 ''pre_election'' ''funding'', art 1 ''post_election'' ''funding'',
      art 2 ''election_campaign'' ''send'']"

text \<open>Seven topics on three dates: six with two articles each, one with a single article.\<close>

definition dated :: "nat \<Rightarrow> timestamp \<Rightarrow> string \<Rightarrow> article" where
  "dated i d t = (art i ''pre_election'' t)\<lparr>date := d\<rparr>"

definition seven_topics_frame :: frame where
  "seven_topics_frame =
     [dated 0 1 ''attendance'', dated 1 2 ''attendance'',
      dated 2 1 ''curriculum'', dated 3 3 ''curriculum'',
      dated 4 2 ''exams'',
      dated 5 1 ''funding'', dated 6 2 ''funding'',
      dated 7 2 ''ofsted'', dated 8 3 ''ofsted'',
      dated 9 1 ''send'', dated 10 1 ''send'',
      dated 11 1 ''teachers'', dated 12 3 ''teachers'']"

section \<open>Properties\<close>

subsection \<open>The pandas primitives\<close>

lemma set_unique: "set (unique xs) = set xs"
  by (induction xs rule: unique.induct) auto

lemma distinct_unique: "distinct (unique xs)"
  by (induction xs rule: unique.induct) (auto simp add: set_unique)

lemma sort_unique: "sort (unique xs) = sorted_list_of_set (set xs)"
  by (rule sorted_distinct_set_unique)
     (simp_all add: set_unique distinct_unique)

lemma groupby_size_keys:
  "map fst (groupby_size key df) = sorted_list_of_set (key ` set df)"
  by (simp add: groupby_size_def sort_unique comp_def)

lemma groupby_size_distinct: "distinct (map fst (groupby_size key df))"
  by (simp add: groupby_size_keys)

lemma map_of_graph:
  "map_of (map (\<lambda>k. (k, f k)) ks) k = (if k \<in> set ks then Some (f k) else None)"
  by (induction ks) auto

lemma groupby_size_lookup:
  "map_of (groupby_size key df) k =
     (if k \<in> key ` set df then Some (length (filter (\<lambda>r. key r = k) df)) else None)"
  by (simp add: groupby_size_def map_of_graph set_unique)

lemma groupby_size_lookup_default:
  "(case map_of (groupby_size key df) k of None \<Rightarrow> 0 | Some n \<Rightarrow> n) =
     length (filter (\<lambda>r. key r = k) df)"
proof (cases "k \<in> key ` set df")
  case True
  then show ?thesis by (simp add: groupby_size_lookup)
next
  case False
  then have "filter (\<lambda>r. key r = k) df = []"
    by (auto simp add: filter_empty_conv)
  with False show ?thesis by (simp add: groupby_size_lookup)
qed

subsection \<open>The pivot table\<close>

lemma rank_periods:
  "set (map (\<lambda>((p, t), n). p) (rank df)) = election_period ` set df"
proof -
  have "map (\<lambda>((p, t), n). p) (rank df) = map fst (map fst (rank df))"
    by (simp add: case_prod_beta comp_def)
  then show ?thesis
    by (simp add: rank_def groupby_size_keys image_image del: map_map)
qed

lemma rank_topics:
  "set (map (\<lambda>((p, t), n). t) (rank df)) = topic_name ` set df"
proof -
  have "map (\<lambda>((p, t), n). t) (rank df) = map snd (map fst (rank df))"
    by (simp add: case_prod_beta comp_def)
  then show ?thesis
    by (simp add: rank_def groupby_size_keys image_image del: map_map)
qed

lemma pivot_fillna_rank:
  "pivot_fillna (rank df) =
     Inr \<lparr>pv_index = sorted_list_of_set (topics df),
          pv_columns = sorted_list_of_set (periods df),
          pv_cell = period_count df\<rparr>"
proof -
  have d: "distinct (map fst (rank df))"
    by (simp add: rank_def groupby_size_distinct)
  have i: "sort (unique (map (\<lambda>((p, t), n). t) (rank df))) = sorted_list_of_set (topics df)"
    by (simp only: sort_unique rank_topics topics_def)
  have c: "sort (unique (map (\<lambda>((p, t), n). p) (rank df))) = sorted_list_of_set (periods df)"
    by (simp only: sort_unique rank_periods periods_def)
  have v: "(\<lambda>p t. case map_of (rank df) (p, t) of None \<Rightarrow> 0 | Some n \<Rightarrow> n) = period_count df"
    by (intro ext) (simp add: rank_def groupby_size_lookup_default period_count_def)
  show ?thesis
    unfolding pivot_fillna_def using d i c v by simp
qed

lemma zip5_map:
  "zip xs (zip (map a xs) (zip (map b xs) (zip (map c xs) (map d xs)))) =
     map (\<lambda>x. (x, a x, b x, c x, d x)) xs"
  by (induction xs) auto

lemma pivot_rows:
  assumes "''pre_election'' \<in> periods df" and "''post_election'' \<in> periods df"
  shows "pivot df =
     Inr (map (row_of df (sorted_list_of_set (topics df))) (sorted_list_of_set (topics df)))"
proof -
  have f: "finite (periods df)" by (simp add: periods_def)
  show ?thesis
    using assms f
    by (simp add: pivot_def pivot_fillna_rank column_def rank_desc_def zip5_map row_of_def
        comp_def)
qed

subsection \<open>Average ranks\<close>

lemma tied_pos: "x \<in> set col \<Longrightarrow> 1 \<le> length (filter (\<lambda>y. y = x) col)"
  by (induction col) auto

lemma greater_tied_le:
  "length (filter (\<lambda>y. (x::nat) < y) col) + length (filter (\<lambda>y. y = x) col) \<le> length col"
  by (induction col) auto

lemma greater_tied_mono:
  "(x::nat) < y \<Longrightarrow>
     length (filter (\<lambda>z. y < z) col) + length (filter (\<lambda>z. z = y) col)
       \<le> length (filter (\<lambda>z. x < z) col)"
  by (induction col) auto

lemma half_ge_1:
  fixes g e :: rat
  assumes "1 \<le> e" and "0 \<le> g"
  shows "1 \<le> g + (e + 1) / 2"
  using assms by (simp add: field_simps)

lemma half_le:
  fixes g e n :: rat
  assumes "1 \<le> e" and "g + e \<le> n"
  shows "g + (e + 1) / 2 \<le> n"
  using assms by (simp add: field_simps)

lemma half_strict:
  fixes g e g' e' :: rat
  assumes "1 \<le> e" and "0 \<le> e'" and "g' + e' \<le> g"
  shows "g' + (e' + 1) / 2 < g + (e + 1) / 2"
  using assms by (simp add: field_simps)

lemma half_eq_1:
  fixes g e :: rat
  assumes "1 \<le> e" and "0 \<le> g"
  shows "g + (e + 1) / 2 = 1 \<longleftrightarrow> g = 0 \<and> e = 1"
  using assms by (auto simp add: field_simps)

lemma tied_pos_rat:
  "x \<in> set col \<Longrightarrow> (1::rat) \<le> of_nat (length (filter (\<lambda>y. y = x) col))"
  using tied_pos [of x col] by (metis of_nat_1 of_nat_le_iff)

lemma average_rank_ge_1:
  assumes "x \<in> set col"
  shows "1 \<le> average_rank col x"
  unfolding average_rank_def
  by (rule half_ge_1 [OF tied_pos_rat [OF assms]]) simp

lemma average_rank_le_length:
  assumes "x \<in> set col"
  shows "average_rank col x \<le> of_nat (length col)"
proof -
  have "(of_nat (length (filter (\<lambda>y. x < y) col) + length (filter (\<lambda>y. y = x) col)) :: rat)
          \<le> of_nat (length col)"
    using greater_tied_le [of x col] by (simp only: of_nat_le_iff)
  then have "(of_nat (length (filter (\<lambda>y. x < y) col)) :: rat)
      + of_nat (length (filter (\<lambda>y. y = x) col)) \<le> of_nat (length col)"
    by simp
  then show ?thesis
    unfolding average_rank_def by (rule half_le [OF tied_pos_rat [OF assms]])
qed

lemma average_rank_strict:
  assumes "x \<in> set col" and "x < y"
  shows "average_rank col y < average_rank col x"
proof -
  have "(of_nat (length (filter (\<lambda>z. y < z) col) + length (filter (\<lambda>z. z = y) col)) :: rat)
          \<le> of_nat (length (filter (\<lambda>z. x < z) col))"
    using greater_tied_mono [OF assms(2), of col] by (simp only: of_nat_le_iff)
  then have "(of_nat (length (filter (\<lambda>z. y < z) col)) :: rat)
      + of_nat (length (filter (\<lambda>z. z = y) col)) \<le> of_nat (length (filter (\<lambda>z. x < z) col))"
    by simp
  moreover have "(0::rat) \<le> of_nat (length (filter (\<lambda>z. z = y) col))" by simp
  ultimately show ?thesis
    unfolding average_rank_def
    using half_strict [OF tied_pos_rat [OF assms(1)]] by blast
qed

lemma average_rank_competition:
  "average_rank col x = 1 + of_nat (length (filter (\<lambda>y. x < y) col))
     \<longleftrightarrow> length (filter (\<lambda>y. y = x) col) = 1"
proof -
  have "average_rank col x = 1 + of_nat (length (filter (\<lambda>y. x < y) col))
     \<longleftrightarrow> (of_nat (length (filter (\<lambda>y. y = x) col)) :: rat) = 1"
    unfolding average_rank_def by auto
  then show ?thesis by (metis of_nat_1 of_nat_eq_iff)
qed

lemma average_rank_eq_1:
  assumes "x \<in> set col"
  shows "average_rank col x = 1 \<longleftrightarrow>
     length (filter (\<lambda>y. x < y) col) = 0 \<and> length (filter (\<lambda>y. y = x) col) = 1"
proof -
  have "average_rank col x = 1 \<longleftrightarrow>
     (of_nat (length (filter (\<lambda>y. x < y) col)) :: rat) = 0
     \<and> (of_nat (length (filter (\<lambda>y. y = x) col)) :: rat) = 1"
    unfolding average_rank_def
    by (rule half_eq_1 [OF tied_pos_rat [OF assms]]) simp
  then show ?thesis by (metis of_nat_0 of_nat_1 of_nat_eq_iff)
qed

lemma length_filter_index:
  assumes "finite A"
  shows "length (filter P (map f (sorted_list_of_set A))) = card {u \<in> A. P (f u)}"
proof -
  have "length (filter P (map f (sorted_list_of_set A))) =
      length (filter (P \<circ> f) (sorted_list_of_set A))"
    by (simp add: filter_map)
  also have "\<dots> = card {u \<in> set (sorted_list_of_set A). (P \<circ> f) u}"
    by (simp add: distinct_length_filter Int_def conj_commute)
  finally show ?thesis using assms by simp
qed

subsection \<open>Filter\<close>

text \<open>
  Claim C4. The filter keeps exactly the rows of the store whose source, topic and
  election period each belong to the corresponding selection, in store order, and an
  empty selection in any of the three dimensions gives the empty frame.
\<close>

theorem df_filt_exact:
  "set (df_filt df ss ts ps) =
     {r. r \<in> set df \<and> source r \<in> set ss \<and> topic_name r \<in> set ts \<and> election_period r \<in> set ps}
   \<and> df_filt df ss ts ps =
       filter (\<lambda>r. election_period r \<in> set ps)
         (filter (\<lambda>r. topic_name r \<in> set ts) (filter (\<lambda>r. source r \<in> set ss) df))
   \<and> length (df_filt df ss ts ps) =
       length (filter (\<lambda>r. source r \<in> set ss \<and> topic_name r \<in> set ts
                          \<and> election_period r \<in> set ps) df)
   \<and> df_filt df [] ts ps = []
   \<and> df_filt df ss [] ps = []
   \<and> df_filt df ss ts [] = []"
  by (auto simp add: df_filt_def intro: filter_cong)

subsection \<open>The average ranks of a column add up to \<open>n (n + 1) / 2\<close>\<close>

lemma three_way:
  "length (filter (\<lambda>y. (x::nat) < y) ys) + length (filter (\<lambda>y. y < x) ys)
     + length (filter (\<lambda>y. y = x) ys) = length ys"
  by (induction ys) auto

lemma sum_list_indicator:
  "sum_list (map (\<lambda>y. if P y then 1 else 0) ys) = length (filter P ys)"
  by (induction ys) auto

lemma count_swap:
  "sum_list (map (\<lambda>x. length (filter (\<lambda>y. (x::nat) < y) ys)) xs) =
   sum_list (map (\<lambda>y. length (filter (\<lambda>x. x < y) xs)) ys)"
proof (induction xs)
  case Nil
  then show ?case by simp
next
  case (Cons a xs)
  have "sum_list (map (\<lambda>y. length (filter (\<lambda>x. x < y) (a # xs))) ys) =
        sum_list (map (\<lambda>y. (if a < y then 1 else 0) + length (filter (\<lambda>x. x < y) xs)) ys)"
    by (rule arg_cong [where f = sum_list]) (rule map_cong, auto)
  also have "\<dots> = length (filter (\<lambda>y. a < y) ys)
        + sum_list (map (\<lambda>y. length (filter (\<lambda>x. x < y) xs)) ys)"
    by (simp only: sum_list_addf sum_list_indicator)
  finally show ?case using Cons.IH by simp
qed

lemma pair_count:
  "2 * sum_list (map (\<lambda>x. length (filter (\<lambda>y. (x::nat) < y) col)) col)
     + sum_list (map (\<lambda>x. length (filter (\<lambda>y. y = x) col)) col)
   = length col * length col"
proof -
  let ?G = "sum_list (map (\<lambda>x. length (filter (\<lambda>y. x < y) col)) col)"
  let ?L = "sum_list (map (\<lambda>x. length (filter (\<lambda>y. y < x) col)) col)"
  let ?E = "sum_list (map (\<lambda>x. length (filter (\<lambda>y. y = x) col)) col)"
  have "?G + ?L + ?E =
      sum_list (map (\<lambda>x. length (filter (\<lambda>y. x < y) col) + length (filter (\<lambda>y. y < x) col)
           + length (filter (\<lambda>y. y = x) col)) col)"
    by (simp only: sum_list_addf)
  also have "\<dots> = sum_list (map (\<lambda>x. length col) col)"
    by (simp only: three_way)
  also have "\<dots> = length col * length col"
    by (simp add: sum_list_triv)
  finally have t: "?G + ?L + ?E = length col * length col" .
  have "?G = ?L" by (rule count_swap)
  with t show ?thesis by simp
qed

lemma sum_average_rank_split:
  "sum_list (map (average_rank col) xs) =
     of_nat (sum_list (map (\<lambda>x. length (filter (\<lambda>y. x < y) col)) xs))
     + (of_nat (sum_list (map (\<lambda>x. length (filter (\<lambda>y. y = x) col)) xs))
        + of_nat (length xs)) / 2"
  by (induction xs) (simp_all add: average_rank_def field_simps)

lemma sum_rank_desc:
  "sum_list (rank_desc col) = of_nat (length col) * (of_nat (length col) + 1) / 2"
proof -
  let ?G = "sum_list (map (\<lambda>x. length (filter (\<lambda>y. x < y) col)) col)"
  let ?E = "sum_list (map (\<lambda>x. length (filter (\<lambda>y. y = x) col)) col)"
  have "(of_nat (2 * ?G + ?E) :: rat) = of_nat (length col * length col)"
    by (simp only: pair_count)
  then have e: "2 * (of_nat ?G :: rat) + of_nat ?E = of_nat (length col) * of_nat (length col)"
    by simp
  have "sum_list (rank_desc col) = of_nat ?G + (of_nat ?E + of_nat (length col)) / 2"
    by (simp only: rank_desc_def sum_average_rank_split)
  also have "\<dots> = (2 * of_nat ?G + of_nat ?E + of_nat (length col)) / 2"
    by (simp add: field_simps)
  also have "\<dots> = of_nat (length col) * (of_nat (length col) + 1) / 2"
    by (simp only: e) (simp add: field_simps)
  finally show ?thesis .
qed

lemma max_of_zero_sum:
  fixes f :: "'a \<Rightarrow> rat"
  assumes "sum_list (map f xs) = 0" and "r \<in> set xs" and "\<forall>s\<in>set xs. f s \<le> f r"
  shows "0 \<le> f r"
proof (rule ccontr)
  assume "\<not> 0 \<le> f r"
  then have neg: "f r < 0" by simp
  have "sum_list (map f xs) \<le> sum_list (map (\<lambda>s. f r) xs)"
    using assms(3) by (intro sum_list_mono) auto
  also have "\<dots> = of_nat (length xs) * f r"
    by (simp add: sum_list_triv)
  also have "\<dots> < 0"
  proof -
    have "0 < length xs" using assms(2) by (cases xs) auto
    then have "(0::rat) < of_nat (length xs)" by simp
    with neg show ?thesis by (simp add: mult_pos_neg)
  qed
  finally show False using assms(1) by simp
qed

lemma sum_rank_change:
  assumes "rows = map (row_of df (sorted_list_of_set (topics df))) (sorted_list_of_set (topics df))"
  shows "sum_list (map rank_change rows) = 0"
proof -
  have pre: "map rank_pre rows = rank_desc (map pre_election rows)"
    and post: "map rank_post rows = rank_desc (map post_election rows)"
    and ch: "map rank_change rows = map (\<lambda>r. rank_pre r - rank_post r) rows"
    by (simp_all add: assms rank_desc_def row_of_def comp_def)
  have "sum_list (map rank_change rows) =
      sum_list (map rank_pre rows) - sum_list (map rank_post rows)"
    by (simp only: ch sum_list_subtractf)
  also have "\<dots> = 0"
    by (simp only: pre post sum_rank_desc length_map)
  finally show ?thesis .
qed

subsection \<open>Sorting and the election shift\<close>

lemma sort_values_desc_set: "set (sort_values_desc tie key rows) = set rows"
proof -
  have "set (map snd (enumerate 0 rows)) = set rows"
    by (simp only: map_snd_enumerate)
  then have "snd ` set (enumerate 0 rows) = set rows"
    by (simp only: set_map)
  then show ?thesis
    by (simp add: sort_values_desc_def)
qed

lemma sort_values_desc_length: "length (sort_values_desc tie key rows) = length rows"
  by (simp add: sort_values_desc_def)

lemma sort_values_desc_distinct:
  assumes "distinct rows"
  shows "distinct (sort_values_desc tie key rows)"
proof -
  have "distinct (map snd (enumerate 0 rows))"
    using assms by (simp only: map_snd_enumerate)
  then have "inj_on snd (set (enumerate 0 rows))"
    by (rule distinct_map [THEN iffD1, THEN conjunct2])
  then show ?thesis
    by (simp add: sort_values_desc_def distinct_map)
qed

lemma sort_values_desc_sorted:
  "sorted (map (\<lambda>r. - key r) (sort_values_desc tie key rows))"
proof -
  let ?f = "\<lambda>(i, r). (- key r, tie i)"
  let ?ys = "sort_key ?f (enumerate 0 rows)"
  have "sorted (map ?f ?ys)" by (rule sorted_sort_key)
  then have "sorted_wrt (\<lambda>a b. ?f a \<le> ?f b) ?ys"
    by (simp only: sorted_map)
  then have "sorted_wrt (\<lambda>a b. - key (snd a) \<le> - key (snd b)) ?ys"
    by (rule sorted_wrt_mono_rel [rotated]) (auto simp add: less_eq_prod_def)
  then have "sorted (map (\<lambda>a. - key (snd a)) ?ys)"
    by (simp only: sorted_map)
  then show ?thesis
    by (simp add: sort_values_desc_def comp_def)
qed

lemma head_sort_values_desc:
  fixes key :: "'a \<Rightarrow> rat"
  assumes "rows \<noteq> []"
  shows "\<exists>r. head 1 (sort_values_desc tie key rows) = [r] \<and> r \<in> set rows
            \<and> (\<forall>s\<in>set rows. key s \<le> key r)"
proof -
  let ?ys = "sort_values_desc tie key rows"
  have "length ?ys = length rows" by (rule sort_values_desc_length)
  with assms have ne: "?ys \<noteq> []" by auto
  then obtain r rest where ys: "?ys = r # rest"
    by (cases ?ys) auto
  have "sorted (map (\<lambda>r. - key r) ?ys)" by (rule sort_values_desc_sorted)
  then have le: "\<forall>s\<in>set rest. - key r \<le> - key s"
    by (simp add: ys)
  have mem: "set ?ys = set rows" by (rule sort_values_desc_set)
  have "r \<in> set rows" using mem ys by (metis list.set_intros(1))
  moreover have "\<forall>s\<in>set rows. key s \<le> key r"
  proof
    fix s assume "s \<in> set rows"
    then have "s \<in> set (r # rest)" using mem ys by simp
    then show "key s \<le> key r" using le by auto
  qed
  moreover have "head 1 ?ys = [r]"
    by (simp add: head_def ys)
  ultimately show ?thesis by blast
qed

lemma periods_nonempty_topics:
  assumes "p \<in> periods df"
  shows "sorted_list_of_set (topics df) \<noteq> []"
proof -
  from assms have "set df \<noteq> {}" by (auto simp add: periods_def)
  then have "topics df \<noteq> {}" by (simp add: topics_def)
  moreover have "finite (topics df)" by (simp add: topics_def)
  ultimately show ?thesis by (simp add: sorted_list_of_set_eq_Nil_iff)
qed

lemma election_shift_guard:
  "{''pre_election'', ''post_election''} \<subseteq> set (map (\<lambda>((p, t), n). p) (rank df))
     \<longleftrightarrow> ''pre_election'' \<in> periods df \<and> ''post_election'' \<in> periods df"
  by (simp only: rank_periods periods_def insert_subset empty_subsetI simp_thms)

lemma election_shift_both:
  assumes "''pre_election'' \<in> periods df" and "''post_election'' \<in> periods df"
  shows "\<exists>rows r. pivot df = Inr rows \<and> r \<in> set rows
           \<and> (\<forall>s\<in>set rows. rank_change s \<le> rank_change r)
           \<and> top_mover tie df = Inr [r]
           \<and> election_shift tie df =
               Inr (Metric ''Biggest riser'' (title (replace_underscore (topic r)))
                      (''+'' @ str_int (py_int (rank_change r))))"
proof -
  let ?idx = "sorted_list_of_set (topics df)"
  let ?rows = "map (row_of df ?idx) ?idx"
  have p: "pivot df = Inr ?rows" by (rule pivot_rows [OF assms])
  have "?rows \<noteq> []" using periods_nonempty_topics [OF assms(1)] by simp
  from head_sort_values_desc [OF this, of tie rank_change]
  obtain r where r: "head 1 (sort_values_desc tie rank_change ?rows) = [r]" "r \<in> set ?rows"
      "\<forall>s\<in>set ?rows. rank_change s \<le> rank_change r"
    by blast
  have tm: "top_mover tie df = Inr [r]"
    by (simp only: top_mover_def p sum.case r(1))
  have "election_shift tie df =
      Inr (Metric ''Biggest riser'' (title (replace_underscore (topic r)))
             (''+'' @ str_int (py_int (rank_change r))))"
  proof -
    have g: "{''pre_election'', ''post_election''}
               \<subseteq> set (map (\<lambda>((p, t), n). p) (rank df))"
      using assms by (simp only: election_shift_guard)
    show ?thesis
      by (simp only: election_shift_def g if_True tm iloc0_def list.map list.case sum.case)
  qed
  with p r tm show ?thesis by blast
qed

lemma election_shift_degraded:
  assumes "\<not> (''pre_election'' \<in> periods df \<and> ''post_election'' \<in> periods df)"
  shows "election_shift tie df = Inr InsufficientData"
  using assms by (simp only: election_shift_def election_shift_guard if_False)

text \<open>
  Claim C3. The election-shift section shows the ``insufficient data'' message exactly
  when \<^verbatim>\<open>pre_election\<close> or \<^verbatim>\<open>post_election\<close> is not among the election periods of
  the filtered frame, whatever other periods occur, and so on the empty frame; otherwise
  it shows the ``Biggest riser'' metric, and it raises in neither case.
\<close>

theorem election_shift_insufficient_iff:
  "(election_shift tie df = Inr InsufficientData
      \<longleftrightarrow> \<not> (''pre_election'' \<in> periods df \<and> ''post_election'' \<in> periods df))
   \<and> ((\<exists>label delta. election_shift tie df = Inr (Metric ''Biggest riser'' label delta))
      \<longleftrightarrow> (''pre_election'' \<in> periods df \<and> ''post_election'' \<in> periods df))
   \<and> election_shift tie [] = Inr InsufficientData"
proof (cases "''pre_election'' \<in> periods df \<and> ''post_election'' \<in> periods df")
  case True
  then obtain label delta where m: "election_shift tie df = Inr (Metric ''Biggest riser'' label delta)"
    using election_shift_both [of df tie] by blast
  have e: "election_shift tie [] = Inr InsufficientData"
    by (rule election_shift_degraded) (simp add: periods_def)
  from True m e show ?thesis by (simp add: InsufficientData_def)
next
  case False
  have e: "election_shift tie [] = Inr InsufficientData"
    by (rule election_shift_degraded) (simp add: periods_def)
  from False election_shift_degraded [OF False] e show ?thesis
    by (simp add: InsufficientData_def)
qed

subsection \<open>Ranks within a period\<close>

lemma average_rank_topics:
  fixes cnt :: "string \<Rightarrow> nat"
  assumes "finite A" and "t \<in> A"
  shows "average_rank (map cnt (sorted_list_of_set A)) (cnt t) =
           of_nat (card {u \<in> A. cnt t < cnt u}) + (of_nat (card {u \<in> A. cnt u = cnt t}) + 1) / 2"
    and "1 \<le> average_rank (map cnt (sorted_list_of_set A)) (cnt t)"
    and "average_rank (map cnt (sorted_list_of_set A)) (cnt t) \<le> of_nat (card A)"
    and "average_rank (map cnt (sorted_list_of_set A)) (cnt t) = 1 \<longleftrightarrow>
           card {u \<in> A. cnt t < cnt u} = 0 \<and> card {u \<in> A. cnt u = cnt t} = 1"
    and "average_rank (map cnt (sorted_list_of_set A)) (cnt t)
           = competition_rank (map cnt (sorted_list_of_set A)) (cnt t) \<longleftrightarrow>
         card {u \<in> A. cnt u = cnt t} = 1"
    and "\<And>u. u \<in> A \<Longrightarrow> cnt t < cnt u \<Longrightarrow>
           average_rank (map cnt (sorted_list_of_set A)) (cnt u)
             < average_rank (map cnt (sorted_list_of_set A)) (cnt t)"
proof -
  let ?col = "map cnt (sorted_list_of_set A)"
  have mem: "cnt t \<in> set ?col" using assms by simp
  have g: "length (filter (\<lambda>y. cnt t < y) ?col) = card {u \<in> A. cnt t < cnt u}"
    by (rule length_filter_index [OF assms(1)])
  have e: "length (filter (\<lambda>y. y = cnt t) ?col) = card {u \<in> A. cnt u = cnt t}"
    by (rule length_filter_index [OF assms(1)])
  show "average_rank ?col (cnt t) =
      of_nat (card {u \<in> A. cnt t < cnt u}) + (of_nat (card {u \<in> A. cnt u = cnt t}) + 1) / 2"
    by (simp only: average_rank_def g e)
  show "1 \<le> average_rank ?col (cnt t)"
    by (rule average_rank_ge_1 [OF mem])
  have "average_rank ?col (cnt t) \<le> of_nat (length ?col)"
    by (rule average_rank_le_length [OF mem])
  then show "average_rank ?col (cnt t) \<le> of_nat (card A)"
    using assms(1) by simp
  show "average_rank ?col (cnt t) = 1 \<longleftrightarrow>
      card {u \<in> A. cnt t < cnt u} = 0 \<and> card {u \<in> A. cnt u = cnt t} = 1"
    using average_rank_eq_1 [OF mem] by (simp only: g e)
  show "average_rank ?col (cnt t) = competition_rank ?col (cnt t) \<longleftrightarrow>
      card {u \<in> A. cnt u = cnt t} = 1"
    using average_rank_competition [of ?col "cnt t"] by (simp only: competition_rank_def e)
  show "\<And>u. u \<in> A \<Longrightarrow> cnt t < cnt u \<Longrightarrow> average_rank ?col (cnt u) < average_rank ?col (cnt t)"
    by (rule average_rank_strict [OF mem])
qed

lemma finite_topics: "finite (topics df)"
  by (simp add: topics_def)

lemma set_index: "set (sorted_list_of_set (topics df)) = topics df"
  by (simp add: finite_topics)

lemma period_count_zero:
  "period_count df p t = 0 \<longleftrightarrow> t \<notin> topics (filter (\<lambda>a. election_period a = p) df)"
  by (auto simp add: period_count_def topics_def filter_empty_conv)

text \<open>
  Claim C1, as the code has it. When both periods occur in the filtered frame, the topics
  are ranked within each period by descending count with pandas' average ranking:
  a topic's rank is the number of topics with a strictly greater count plus half of
  (the number of topics with its count, itself included, plus one). Topics with equal
  counts get equal ranks; a topic with a smaller count never gets a better rank than
  one with a larger count; every rank lies between 1 and the number \<open>N\<close> of topics of
  the whole filtered frame; rank 1 goes to a topic exactly when no topic has a greater
  and no other topic the same count; and the rank is the competition rank (one plus the
  number of strictly greater counts) exactly for a topic that shares its count with no
  other topic.
\<close>

theorem pivot_average_ranks:
  assumes "''pre_election'' \<in> periods df" and "''post_election'' \<in> periods df"
  shows "\<exists>rows. pivot df = Inr rows
     \<and> map topic rows = sorted_list_of_set (topics df)
     \<and> (\<forall>r\<in>set rows.
          pre_election r = period_count df ''pre_election'' (topic r)
        \<and> post_election r = period_count df ''post_election'' (topic r)
        \<and> rank_pre r =
            of_nat (card {u \<in> topics df. pre_election r < period_count df ''pre_election'' u})
            + (of_nat (card {u \<in> topics df. period_count df ''pre_election'' u = pre_election r})
               + 1) / 2
        \<and> rank_post r =
            of_nat (card {u \<in> topics df. post_election r < period_count df ''post_election'' u})
            + (of_nat (card {u \<in> topics df. period_count df ''post_election'' u = post_election r})
               + 1) / 2
        \<and> 1 \<le> rank_pre r \<and> rank_pre r \<le> of_nat (card (topics df))
        \<and> 1 \<le> rank_post r \<and> rank_post r \<le> of_nat (card (topics df))
        \<and> (rank_pre r = 1 \<longleftrightarrow>
             card {u \<in> topics df. pre_election r < period_count df ''pre_election'' u} = 0
             \<and> card {u \<in> topics df. period_count df ''pre_election'' u = pre_election r} = 1)
        \<and> (rank_post r = 1 \<longleftrightarrow>
             card {u \<in> topics df. post_election r < period_count df ''post_election'' u} = 0
             \<and> card {u \<in> topics df. period_count df ''post_election'' u = post_election r} = 1)
        \<and> (rank_pre r = competition_rank (map pre_election rows) (pre_election r) \<longleftrightarrow>
             card {u \<in> topics df. period_count df ''pre_election'' u = pre_election r} = 1)
        \<and> (rank_post r = competition_rank (map post_election rows) (post_election r) \<longleftrightarrow>
             card {u \<in> topics df. period_count df ''post_election'' u = post_election r} = 1))
     \<and> (\<forall>a\<in>set rows. \<forall>b\<in>set rows.
          (pre_election a = pre_election b \<longrightarrow> rank_pre a = rank_pre b)
        \<and> (pre_election a < pre_election b \<longrightarrow> rank_pre b < rank_pre a)
        \<and> (post_election a = post_election b \<longrightarrow> rank_post a = rank_post b)
        \<and> (post_election a < post_election b \<longrightarrow> rank_post b < rank_post a))"
proof -
  let ?idx = "sorted_list_of_set (topics df)"
  let ?rows = "map (row_of df ?idx) ?idx"
  let ?pre = "period_count df ''pre_election''"
  let ?post = "period_count df ''post_election''"
  note fin = finite_topics [of df]
  have p: "pivot df = Inr ?rows" by (rule pivot_rows [OF assms])
  have t: "map topic ?rows = ?idx"
    by (simp add: row_of_def comp_def)
  have cpre: "map pre_election ?rows = map ?pre ?idx"
    by (simp add: row_of_def comp_def)
  have cpost: "map post_election ?rows = map ?post ?idx"
    by (simp add: row_of_def comp_def)
  have row: "\<And>r. r \<in> set ?rows \<Longrightarrow> \<exists>t\<in>topics df. r = row_of df ?idx t"
    using set_index [of df] by auto
  have each: "\<forall>r\<in>set ?rows.
          pre_election r = ?pre (topic r)
        \<and> post_election r = ?post (topic r)
        \<and> rank_pre r =
            of_nat (card {u \<in> topics df. pre_election r < ?pre u})
            + (of_nat (card {u \<in> topics df. ?pre u = pre_election r}) + 1) / 2
        \<and> rank_post r =
            of_nat (card {u \<in> topics df. post_election r < ?post u})
            + (of_nat (card {u \<in> topics df. ?post u = post_election r}) + 1) / 2
        \<and> 1 \<le> rank_pre r \<and> rank_pre r \<le> of_nat (card (topics df))
        \<and> 1 \<le> rank_post r \<and> rank_post r \<le> of_nat (card (topics df))
        \<and> (rank_pre r = 1 \<longleftrightarrow>
             card {u \<in> topics df. pre_election r < ?pre u} = 0
             \<and> card {u \<in> topics df. ?pre u = pre_election r} = 1)
        \<and> (rank_post r = 1 \<longleftrightarrow>
             card {u \<in> topics df. post_election r < ?post u} = 0
             \<and> card {u \<in> topics df. ?post u = post_election r} = 1)
        \<and> (rank_pre r = competition_rank (map pre_election ?rows) (pre_election r) \<longleftrightarrow>
             card {u \<in> topics df. ?pre u = pre_election r} = 1)
        \<and> (rank_post r = competition_rank (map post_election ?rows) (post_election r) \<longleftrightarrow>
             card {u \<in> topics df. ?post u = post_election r} = 1)"
  proof
    fix r assume "r \<in> set ?rows"
    then obtain t where t: "t \<in> topics df" and r: "r = row_of df ?idx t"
      using row by blast
    have f: "topic r = t" "pre_election r = ?pre t" "post_election r = ?post t"
      "rank_pre r = average_rank (map ?pre ?idx) (?pre t)"
      "rank_post r = average_rank (map ?post ?idx) (?post t)"
      by (simp_all add: r row_of_def)
    show "pre_election r = ?pre (topic r)
        \<and> post_election r = ?post (topic r)
        \<and> rank_pre r =
            of_nat (card {u \<in> topics df. pre_election r < ?pre u})
            + (of_nat (card {u \<in> topics df. ?pre u = pre_election r}) + 1) / 2
        \<and> rank_post r =
            of_nat (card {u \<in> topics df. post_election r < ?post u})
            + (of_nat (card {u \<in> topics df. ?post u = post_election r}) + 1) / 2
        \<and> 1 \<le> rank_pre r \<and> rank_pre r \<le> of_nat (card (topics df))
        \<and> 1 \<le> rank_post r \<and> rank_post r \<le> of_nat (card (topics df))
        \<and> (rank_pre r = 1 \<longleftrightarrow>
             card {u \<in> topics df. pre_election r < ?pre u} = 0
             \<and> card {u \<in> topics df. ?pre u = pre_election r} = 1)
        \<and> (rank_post r = 1 \<longleftrightarrow>
             card {u \<in> topics df. post_election r < ?post u} = 0
             \<and> card {u \<in> topics df. ?post u = post_election r} = 1)
        \<and> (rank_pre r = competition_rank (map pre_election ?rows) (pre_election r) \<longleftrightarrow>
             card {u \<in> topics df. ?pre u = pre_election r} = 1)
        \<and> (rank_post r = competition_rank (map post_election ?rows) (post_election r) \<longleftrightarrow>
             card {u \<in> topics df. ?post u = post_election r} = 1)"
      unfolding f cpre cpost
      using average_rank_topics(1-5) [OF fin t, of ?pre]
            average_rank_topics(1-5) [OF fin t, of ?post]
      by blast
  qed
  have pairs: "\<forall>a\<in>set ?rows. \<forall>b\<in>set ?rows.
          (pre_election a = pre_election b \<longrightarrow> rank_pre a = rank_pre b)
        \<and> (pre_election a < pre_election b \<longrightarrow> rank_pre b < rank_pre a)
        \<and> (post_election a = post_election b \<longrightarrow> rank_post a = rank_post b)
        \<and> (post_election a < post_election b \<longrightarrow> rank_post b < rank_post a)"
  proof (intro ballI)
    fix a b assume "a \<in> set ?rows" and "b \<in> set ?rows"
    then obtain t u where t: "t \<in> topics df" and a: "a = row_of df ?idx t"
      and u: "u \<in> topics df" and b: "b = row_of df ?idx u"
      using row by blast
    have fa: "pre_election a = ?pre t" "post_election a = ?post t"
      "rank_pre a = average_rank (map ?pre ?idx) (?pre t)"
      "rank_post a = average_rank (map ?post ?idx) (?post t)"
      by (simp_all add: a row_of_def)
    have fb: "pre_election b = ?pre u" "post_election b = ?post u"
      "rank_pre b = average_rank (map ?pre ?idx) (?pre u)"
      "rank_post b = average_rank (map ?post ?idx) (?post u)"
      by (simp_all add: b row_of_def)
    show "(pre_election a = pre_election b \<longrightarrow> rank_pre a = rank_pre b)
        \<and> (pre_election a < pre_election b \<longrightarrow> rank_pre b < rank_pre a)
        \<and> (post_election a = post_election b \<longrightarrow> rank_post a = rank_post b)
        \<and> (post_election a < post_election b \<longrightarrow> rank_post b < rank_post a)"
      unfolding fa fb
      using average_rank_topics(6) [OF fin t u, of ?pre]
            average_rank_topics(6) [OF fin t u, of ?post]
      by auto
  qed
  from p t each pairs show ?thesis by blast
qed

text \<open>The theorem at a frame with two topics tied before the election.\<close>

theorem pivot_average_ranks_witness:
  "''pre_election'' \<in> periods tied_frame \<and> ''post_election'' \<in> periods tied_frame
   \<and> (\<exists>rows. pivot tied_frame = Inr rows
        \<and> map topic rows = [''funding'', ''send'']
        \<and> (\<forall>r\<in>set rows. 1 \<le> rank_pre r \<and> rank_pre r \<le> 2
              \<and> 1 \<le> rank_post r \<and> rank_post r \<le> 2)
        \<and> (\<forall>a\<in>set rows. \<forall>b\<in>set rows.
              (pre_election a < pre_election b \<longrightarrow> rank_pre b < rank_pre a)
            \<and> (post_election a < post_election b \<longrightarrow> rank_post b < rank_post a)))"
proof -
  have a: "''pre_election'' \<in> periods tied_frame" by code_simp
  have b: "''post_election'' \<in> periods tied_frame" by code_simp
  have i: "sorted_list_of_set (topics tied_frame) = [''funding'', ''send'']" by code_simp
  have c: "(of_nat (card (topics tied_frame)) :: rat) = 2" by code_simp
  from pivot_average_ranks [OF a b] obtain rows where
    "pivot tied_frame = Inr rows"
    "map topic rows = sorted_list_of_set (topics tied_frame)"
    "\<forall>r\<in>set rows. 1 \<le> rank_pre r \<and> rank_pre r \<le> of_nat (card (topics tied_frame))
        \<and> 1 \<le> rank_post r \<and> rank_post r \<le> of_nat (card (topics tied_frame))"
    "\<forall>a\<in>set rows. \<forall>b\<in>set rows.
          (pre_election a < pre_election b \<longrightarrow> rank_pre b < rank_pre a)
        \<and> (post_election a < post_election b \<longrightarrow> rank_post b < rank_post a)"
    by blast
  with a b show ?thesis unfolding i c by auto
qed

text \<open>
  Claim C1 as stated fails on ties: of two topics with one article each before the
  election, both get rank \<open>3/2\<close>, where competition ranking gives both rank 1.
\<close>

theorem tied_ranks_not_competition:
  "pivot tied_frame =
     Inr [\<lparr>topic = ''funding'', pre_election = 1, post_election = 1,
           rank_pre = 3 / 2, rank_post = 1, rank_change = 1 / 2\<rparr>,
          \<lparr>topic = ''send'', pre_election = 1, post_election = 0,
           rank_pre = 3 / 2, rank_post = 2, rank_change = - (1 / 2)\<rparr>]
   \<and> competition_rank [1, 1] 1 = 1
   \<and> competition_rank [1, 1] 1 \<noteq> 3 / 2"
  by code_simp

text \<open>
  Claim C5, as the code has it. The pivot table is indexed by exactly the topics of the
  filtered frame, whatever their election period; a topic without a row in one of the two
  periods has count 0 there, and only such a topic has; and the ranks of each period are
  computed from the whole column, over all these topics.
\<close>

theorem pivot_index_all_topics:
  assumes "''pre_election'' \<in> periods df" and "''post_election'' \<in> periods df"
  shows "\<exists>rows. pivot df = Inr rows
     \<and> map topic rows = sorted_list_of_set (topics df)
     \<and> set (map topic rows) = topics df
     \<and> length rows = card (topics df)
     \<and> (\<forall>r\<in>set rows.
          pre_election r = period_count df ''pre_election'' (topic r)
        \<and> post_election r = period_count df ''post_election'' (topic r)
        \<and> (pre_election r = 0 \<longleftrightarrow>
             topic r \<notin> topics (filter (\<lambda>a. election_period a = ''pre_election'') df))
        \<and> (post_election r = 0 \<longleftrightarrow>
             topic r \<notin> topics (filter (\<lambda>a. election_period a = ''post_election'') df)))
     \<and> map rank_pre rows = rank_desc (map pre_election rows)
     \<and> map rank_post rows = rank_desc (map post_election rows)"
proof -
  let ?idx = "sorted_list_of_set (topics df)"
  let ?rows = "map (row_of df ?idx) ?idx"
  have p: "pivot df = Inr ?rows" by (rule pivot_rows [OF assms])
  have t: "map topic ?rows = ?idx"
    by (simp add: row_of_def comp_def)
  have s: "set (map topic ?rows) = topics df"
    by (simp only: t set_index)
  have l: "length ?rows = card (topics df)"
    by (simp add: finite_topics)
  have c: "\<forall>r\<in>set ?rows.
          pre_election r = period_count df ''pre_election'' (topic r)
        \<and> post_election r = period_count df ''post_election'' (topic r)
        \<and> (pre_election r = 0 \<longleftrightarrow>
             topic r \<notin> topics (filter (\<lambda>a. election_period a = ''pre_election'') df))
        \<and> (post_election r = 0 \<longleftrightarrow>
             topic r \<notin> topics (filter (\<lambda>a. election_period a = ''post_election'') df))"
    by (auto simp add: row_of_def period_count_zero)
  have r1: "map rank_pre ?rows = rank_desc (map pre_election ?rows)"
    by (simp add: rank_desc_def row_of_def comp_def)
  have r2: "map rank_post ?rows = rank_desc (map post_election ?rows)"
    by (simp add: rank_desc_def row_of_def comp_def)
  from p t s l c r1 r2 show ?thesis by blast
qed

text \<open>The theorem at a frame with a third election period.\<close>

theorem pivot_index_all_topics_witness:
  "''pre_election'' \<in> periods third_period_frame
   \<and> ''post_election'' \<in> periods third_period_frame
   \<and> (\<exists>rows. pivot third_period_frame = Inr rows
        \<and> map topic rows = [''funding'', ''send'']
        \<and> length rows = 2
        \<and> map rank_pre rows = rank_desc (map pre_election rows)
        \<and> map rank_post rows = rank_desc (map post_election rows))"
proof -
  have a: "''pre_election'' \<in> periods third_period_frame" by code_simp
  have b: "''post_election'' \<in> periods third_period_frame" by code_simp
  have i: "sorted_list_of_set (topics third_period_frame) = [''funding'', ''send'']"
    by code_simp
  have c: "card (topics third_period_frame) = 2" by code_simp
  from pivot_index_all_topics [OF a b] a b show ?thesis
    unfolding i c by auto
qed

text \<open>
  Claim C5 as stated fails when the filtered frame has a third election period: a topic
  that occurs in that period only is a row of the pivot table, with two zero counts, and
  is ranked.
\<close>

theorem pivot_index_third_period:
  "pivot third_period_frame =
     Inr [\<lparr>topic = ''funding'', pre_election = 1, post_election = 1,
           rank_pre = 1, rank_post = 1, rank_change = 0\<rparr>,
          \<lparr>topic = ''send'', pre_election = 0, post_election = 0,
           rank_pre = 2, rank_post = 2, rank_change = 0\<rparr>]
   \<and> ''send'' \<notin> topics (filter (\<lambda>a. election_period a = ''pre_election''
                                   \<or> election_period a = ''post_election'') third_period_frame)"
  by code_simp

subsection \<open>The biggest riser\<close>

lemma py_int_nonneg: "0 \<le> x \<Longrightarrow> py_int x = \<lfloor>x\<rfloor>"
  by (simp add: py_int_def)

lemma str_int_0: "str_int (py_int 0) = ''0''"
  by (simp add: py_int_def str_int_def)

lemma election_shift_riser:
  assumes "''pre_election'' \<in> periods df" and "''post_election'' \<in> periods df"
  shows "\<exists>rows r. pivot df = Inr rows \<and> r \<in> set rows
           \<and> (\<forall>s\<in>set rows. rank_change s = rank_pre s - rank_post s)
           \<and> (\<forall>s\<in>set rows. rank_change s \<le> rank_change r)
           \<and> 0 \<le> rank_change r
           \<and> election_shift tie df =
               Inr (Metric ''Biggest riser'' (title (replace_underscore (topic r)))
                      (''+'' @ str_int (py_int (rank_change r))))"
proof -
  let ?idx = "sorted_list_of_set (topics df)"
  let ?rows = "map (row_of df ?idx) ?idx"
  from election_shift_both [OF assms, where tie = tie] obtain rows r where
    p: "pivot df = Inr rows" and r: "r \<in> set rows"
    and m: "\<forall>s\<in>set rows. rank_change s \<le> rank_change r"
    and e: "election_shift tie df =
               Inr (Metric ''Biggest riser'' (title (replace_underscore (topic r)))
                      (''+'' @ str_int (py_int (rank_change r))))"
    by blast
  have rows: "rows = ?rows"
    using p pivot_rows [OF assms] by simp
  have d: "\<forall>s\<in>set rows. rank_change s = rank_pre s - rank_post s"
    by (auto simp add: rows row_of_def)
  have "sum_list (map rank_change rows) = 0"
    by (rule sum_rank_change [OF rows])
  then have "0 \<le> rank_change r"
    using r m by (rule max_of_zero_sum)
  with p r d m e show ?thesis by blast
qed

lemma election_shift_unique_max:
  assumes "''pre_election'' \<in> periods df" and "''post_election'' \<in> periods df"
    and "pivot df = Inr rows" and "r \<in> set rows"
    and "\<forall>s\<in>set rows. s \<noteq> r \<longrightarrow> rank_change s < rank_change r"
  shows "top_mover tie df = Inr [r]"
    and "election_shift tie df =
           Inr (Metric ''Biggest riser'' (title (replace_underscore (topic r)))
                  (''+'' @ str_int (py_int (rank_change r))))"
proof -
  from election_shift_both [OF assms(1,2), where tie = tie] obtain rows' r' where
    p: "pivot df = Inr rows'" and r: "r' \<in> set rows'"
    and m: "\<forall>s\<in>set rows'. rank_change s \<le> rank_change r'"
    and t: "top_mover tie df = Inr [r']"
    and e: "election_shift tie df =
               Inr (Metric ''Biggest riser'' (title (replace_underscore (topic r')))
                      (''+'' @ str_int (py_int (rank_change r'))))"
    by blast
  from p assms(3) have rows: "rows' = rows" by simp
  have "r' = r"
  proof (rule ccontr)
    assume "r' \<noteq> r"
    with r rows assms(5) have "rank_change r' < rank_change r" by blast
    moreover from m rows assms(4) have "rank_change r \<le> rank_change r'" by blast
    ultimately show False by simp
  qed
  with t e show "top_mover tie df = Inr [r]"
    and "election_shift tie df =
           Inr (Metric ''Biggest riser'' (title (replace_underscore (topic r)))
                  (''+'' @ str_int (py_int (rank_change r))))"
    by simp_all
qed

lemma election_shift_scenario:
  "election_shift tie scenario = Inr (Metric ''Biggest riser'' ''Funding'' ''+1'')"
proof -
  let ?c = "\<lparr>topic = ''curriculum'', pre_election = 10, post_election = 3,
             rank_pre = 1, rank_post = 2, rank_change = - 1\<rparr>"
  let ?f = "\<lparr>topic = ''funding'', pre_election = 2, post_election = 9,
             rank_pre = 2, rank_post = 1, rank_change = 1\<rparr>"
  have a: "''pre_election'' \<in> periods scenario" by code_simp
  have b: "''post_election'' \<in> periods scenario" by code_simp
  have p: "pivot scenario = Inr [?c, ?f]" by code_simp
  have l: "title (replace_underscore ''funding'') = ''Funding''" by code_simp
  have d: "''+'' @ str_int (py_int 1) = ''+1''" by code_simp
  have "election_shift tie scenario =
      Inr (Metric ''Biggest riser'' (title (replace_underscore (topic ?f)))
             (''+'' @ str_int (py_int (rank_change ?f))))"
    by (rule election_shift_unique_max(2) [OF a b p]) simp_all
  then show ?thesis by (simp only: pivot_row.simps l d)
qed

text \<open>
  Claim C2, as the code has it. When both periods occur in the filtered frame, the rank
  change of every topic is its rank before minus its rank after the election, and is
  positive exactly when the rank after is the smaller one. The metric names a topic with
  the largest rank change; its delta is that rank change with the fraction cut off, which
  is its integer part, as the largest rank change is never negative. On the scenario of
  the specification the ranks are 1 and 2 before, 2 and 1 after, and the metric shows
  ``Funding'' with ``+1''.
\<close>

theorem rank_change_biggest_riser:
  "(''pre_election'' \<in> periods df \<and> ''post_election'' \<in> periods df \<longrightarrow>
     (\<exists>rows r. pivot df = Inr rows
        \<and> (\<forall>s\<in>set rows. rank_change s = rank_pre s - rank_post s
                          \<and> (0 < rank_change s \<longleftrightarrow> rank_post s < rank_pre s))
        \<and> r \<in> set rows
        \<and> (\<forall>s\<in>set rows. rank_change s \<le> rank_change r)
        \<and> py_int (rank_change r) = \<lfloor>rank_change r\<rfloor>
        \<and> election_shift tie df =
            Inr (Metric ''Biggest riser'' (title (replace_underscore (topic r)))
                   (''+'' @ str_int (py_int (rank_change r))))))
   \<and> pivot scenario =
       Inr [\<lparr>topic = ''curriculum'', pre_election = 10, post_election = 3,
             rank_pre = 1, rank_post = 2, rank_change = - 1\<rparr>,
            \<lparr>topic = ''funding'', pre_election = 2, post_election = 9,
             rank_pre = 2, rank_post = 1, rank_change = 1\<rparr>]
   \<and> election_shift tie scenario = Inr (Metric ''Biggest riser'' ''Funding'' ''+1'')"
proof (intro conjI impI)
  assume g: "''pre_election'' \<in> periods df \<and> ''post_election'' \<in> periods df"
  from election_shift_riser [of df tie] g obtain rows r where
    p: "pivot df = Inr rows" and r: "r \<in> set rows"
    and d: "\<forall>s\<in>set rows. rank_change s = rank_pre s - rank_post s"
    and m: "\<forall>s\<in>set rows. rank_change s \<le> rank_change r"
    and n: "0 \<le> rank_change r"
    and e: "election_shift tie df =
               Inr (Metric ''Biggest riser'' (title (replace_underscore (topic r)))
                      (''+'' @ str_int (py_int (rank_change r))))"
    by blast
  have d': "\<forall>s\<in>set rows. rank_change s = rank_pre s - rank_post s
                          \<and> (0 < rank_change s \<longleftrightarrow> rank_post s < rank_pre s)"
    using d by auto
  have f: "py_int (rank_change r) = \<lfloor>rank_change r\<rfloor>"
    by (rule py_int_nonneg [OF n])
  from p d' r m f e
  show "\<exists>rows r. pivot df = Inr rows
        \<and> (\<forall>s\<in>set rows. rank_change s = rank_pre s - rank_post s
                          \<and> (0 < rank_change s \<longleftrightarrow> rank_post s < rank_pre s))
        \<and> r \<in> set rows
        \<and> (\<forall>s\<in>set rows. rank_change s \<le> rank_change r)
        \<and> py_int (rank_change r) = \<lfloor>rank_change r\<rfloor>
        \<and> election_shift tie df =
            Inr (Metric ''Biggest riser'' (title (replace_underscore (topic r)))
                   (''+'' @ str_int (py_int (rank_change r))))"
    by blast
next
  show "pivot scenario =
       Inr [\<lparr>topic = ''curriculum'', pre_election = 10, post_election = 3,
             rank_pre = 1, rank_post = 2, rank_change = - 1\<rparr>,
            \<lparr>topic = ''funding'', pre_election = 2, post_election = 9,
             rank_pre = 2, rank_post = 1, rank_change = 1\<rparr>]"
    by code_simp
next
  show "election_shift tie scenario = Inr (Metric ''Biggest riser'' ''Funding'' ''+1'')"
    by (rule election_shift_scenario)
qed

text \<open>The theorem at a frame on which the largest rank change is not a whole number.\<close>

theorem rank_change_biggest_riser_witness:
  "''pre_election'' \<in> periods half_frame \<and> ''post_election'' \<in> periods half_frame
   \<and> (\<exists>rows r. pivot half_frame = Inr rows
        \<and> (\<forall>s\<in>set rows. rank_change s = rank_pre s - rank_post s
                          \<and> (0 < rank_change s \<longleftrightarrow> rank_post s < rank_pre s))
        \<and> r \<in> set rows
        \<and> (\<forall>s\<in>set rows. rank_change s \<le> rank_change r)
        \<and> py_int (rank_change r) = \<lfloor>rank_change r\<rfloor>
        \<and> election_shift first_seen half_frame =
            Inr (Metric ''Biggest riser'' (title (replace_underscore (topic r)))
                   (''+'' @ str_int (py_int (rank_change r)))))"
proof -
  have a: "''pre_election'' \<in> periods half_frame" by code_simp
  have b: "''post_election'' \<in> periods half_frame" by code_simp
  from rank_change_biggest_riser [of half_frame first_seen] a b show ?thesis
    by (intro conjI) (assumption, assumption, simp)
qed

text \<open>
  Claim C2 as stated fails where ranks are tied: average ranks can be half numbers, and
  the metric shows a largest rank change of \<open>3/2\<close> as ``+1''.
\<close>

theorem riser_magnitude_truncated:
  "top_mover first_seen half_frame =
     Inr [\<lparr>topic = ''exams'', pre_election = 1, post_election = 3,
           rank_pre = 5 / 2, rank_post = 1, rank_change = 3 / 2\<rparr>]
   \<and> top_mover last_seen half_frame =
     Inr [\<lparr>topic = ''exams'', pre_election = 1, post_election = 3,
           rank_pre = 5 / 2, rank_post = 1, rank_change = 3 / 2\<rparr>]
   \<and> election_shift first_seen half_frame = Inr (Metric ''Biggest riser'' ''Exams'' ''+1'')
   \<and> election_shift last_seen half_frame = Inr (Metric ''Biggest riser'' ''Exams'' ''+1'')
   \<and> str_int 1 = ''1''
   \<and> rat_of_int 1 \<noteq> 3 / 2"
  by code_simp

text \<open>
  Claim C10, as the code has it. When both periods occur in the filtered frame, the
  metric always names a topic, one with the largest rank change, and shows the integer
  part of that rank change as its delta. The largest rank change is never negative, since
  the ranks of each period add up to the same total. When no topic has a positive rank
  change, the topic named has rank change 0 and is shown with ``+0''.
\<close>

theorem biggest_riser_always_shown:
  assumes "''pre_election'' \<in> periods df" and "''post_election'' \<in> periods df"
  shows "\<exists>rows r. pivot df = Inr rows \<and> r \<in> set rows
     \<and> (\<forall>s\<in>set rows. rank_change s \<le> rank_change r)
     \<and> 0 \<le> rank_change r
     \<and> election_shift tie df =
         Inr (Metric ''Biggest riser'' (title (replace_underscore (topic r)))
                (''+'' @ str_int (py_int (rank_change r))))
     \<and> ((\<forall>s\<in>set rows. rank_change s \<le> 0) \<longrightarrow>
          rank_change r = 0
          \<and> election_shift tie df =
              Inr (Metric ''Biggest riser'' (title (replace_underscore (topic r))) ''+0''))"
proof -
  from election_shift_riser [OF assms, where tie = tie] obtain rows r where
    p: "pivot df = Inr rows" and r: "r \<in> set rows"
    and m: "\<forall>s\<in>set rows. rank_change s \<le> rank_change r"
    and n: "0 \<le> rank_change r"
    and e: "election_shift tie df =
               Inr (Metric ''Biggest riser'' (title (replace_underscore (topic r)))
                      (''+'' @ str_int (py_int (rank_change r))))"
    by blast
  have z: "(\<forall>s\<in>set rows. rank_change s \<le> 0) \<longrightarrow>
          rank_change r = 0
          \<and> election_shift tie df =
              Inr (Metric ''Biggest riser'' (title (replace_underscore (topic r))) ''+0'')"
  proof
    assume "\<forall>s\<in>set rows. rank_change s \<le> 0"
    with r have "rank_change r \<le> 0" by blast
    with n have c: "rank_change r = 0" by simp
    show "rank_change r = 0
          \<and> election_shift tie df =
              Inr (Metric ''Biggest riser'' (title (replace_underscore (topic r))) ''+0'')"
      using c e by (simp add: str_int_0)
  qed
  from p r m n e z show ?thesis by blast
qed

text \<open>The theorem at a frame on which no topic changes its rank.\<close>

theorem biggest_riser_always_shown_witness:
  "''pre_election'' \<in> periods third_period_frame
   \<and> ''post_election'' \<in> periods third_period_frame
   \<and> (\<exists>rows r. pivot third_period_frame = Inr rows \<and> r \<in> set rows
        \<and> (\<forall>s\<in>set rows. rank_change s \<le> rank_change r)
        \<and> rank_change r = 0
        \<and> election_shift first_seen third_period_frame =
            Inr (Metric ''Biggest riser'' (title (replace_underscore (topic r))) ''+0''))"
proof -
  have a: "''pre_election'' \<in> periods third_period_frame" by code_simp
  have b: "''post_election'' \<in> periods third_period_frame" by code_simp
  have p: "pivot third_period_frame =
     Inr [\<lparr>topic = ''funding'', pre_election = 1, post_election = 1,
           rank_pre = 1, rank_post = 1, rank_change = 0\<rparr>,
          \<lparr>topic = ''send'', pre_election = 0, post_election = 0,
           rank_pre = 2, rank_post = 2, rank_change = 0\<rparr>]"
    by code_simp
  from biggest_riser_always_shown [OF a b, where tie = first_seen] obtain rows r where
    q: "pivot third_period_frame = Inr rows" and r: "r \<in> set rows"
    and m: "\<forall>s\<in>set rows. rank_change s \<le> rank_change r"
    and z: "(\<forall>s\<in>set rows. rank_change s \<le> 0) \<longrightarrow>
          rank_change r = 0
          \<and> election_shift first_seen third_period_frame =
              Inr (Metric ''Biggest riser'' (title (replace_underscore (topic r))) ''+0'')"
    by blast
  have "\<forall>s\<in>set rows. rank_change s \<le> 0"
    using p q by auto
  with z q r m a b show ?thesis by blast
qed

text \<open>
  Claim C10 as stated fails where the largest rank change is not a whole number: a topic
  that rose by \<open>1/2\<close> is shown as the biggest riser with ``+0'', not with its rank change.
\<close>

theorem riser_half_step_shown_as_zero:
  "top_mover first_seen tied_frame =
     Inr [\<lparr>topic = ''funding'', pre_election = 1, post_election = 1,
           rank_pre = 3 / 2, rank_post = 1, rank_change = 1 / 2\<rparr>]
   \<and> top_mover last_seen tied_frame =
     Inr [\<lparr>topic = ''funding'', pre_election = 1, post_election = 1,
           rank_pre = 3 / 2, rank_post = 1, rank_change = 1 / 2\<rparr>]
   \<and> election_shift first_seen tied_frame = Inr (Metric ''Biggest riser'' ''Funding'' ''+0'')
   \<and> election_shift last_seen tied_frame = Inr (Metric ''Biggest riser'' ''Funding'' ''+0'')
   \<and> str_int 0 = ''0''
   \<and> rat_of_int 0 \<noteq> 1 / 2"
  by code_simp

subsection \<open>Top topics\<close>

lemma value_counts_set:
  "set (value_counts tie xs) = (\<lambda>k. (k, count_list xs k)) ` set xs"
  by (simp add: value_counts_def sort_values_desc_set set_unique)

lemma value_counts_distinct: "distinct (map fst (value_counts tie xs))"
proof -
  have "distinct (map (\<lambda>k. (k, count_list xs k)) (unique xs))"
    by (simp add: distinct_map distinct_unique inj_on_def)
  then have "distinct (value_counts tie xs)"
    unfolding value_counts_def by (rule sort_values_desc_distinct)
  moreover have "inj_on fst (set (value_counts tie xs))"
    by (auto simp add: value_counts_set inj_on_def)
  ultimately show ?thesis by (simp add: distinct_map)
qed

lemma value_counts_length: "length (value_counts tie xs) = card (set xs)"
proof -
  have "length (value_counts tie xs) = length (unique xs)"
    by (simp add: value_counts_def sort_values_desc_length)
  also have "\<dots> = card (set (unique xs))"
    by (simp add: distinct_card distinct_unique)
  finally show ?thesis by (simp add: set_unique)
qed

lemma value_counts_sorted:
  "sorted (map (\<lambda>r. - int (snd r)) (value_counts tie xs))"
proof -
  have "(\<lambda>r. - (case r of (k, n) \<Rightarrow> int n)) = (\<lambda>r :: 'a \<times> nat. - int (snd r))"
    by (simp add: fun_eq_iff split_beta)
  then show ?thesis
    using sort_values_desc_sorted [of "\<lambda>(k, n). int n" tie
        "map (\<lambda>k. (k, count_list xs k)) (unique xs)"]
    by (simp add: value_counts_def)
qed

text \<open>The two orders of equal counts on six rows with two pairs of tied topics.\<close>

lemma value_counts_tie_orders:
  "value_counts first_seen [''a'', ''b'', ''c'', ''c'', ''d'', ''d''] =
     [(''c'', 2), (''d'', 2), (''a'', 1), (''b'', 1)]
   \<and> value_counts last_seen [''a'', ''b'', ''c'', ''c'', ''d'', ''d''] =
     [(''d'', 2), (''c'', 2), (''b'', 1), (''a'', 1)]"
  by code_simp

lemma top_k_facts:
  shows top_k_length: "length (top_k tie k xs) = min k (card (set xs))"
    and top_k_keys: "fst ` set (top_k tie k xs) \<subseteq> set xs"
    and top_k_distinct: "distinct (map fst (top_k tie k xs))"
    and top_k_counts: "\<forall>(t, n) \<in> set (top_k tie k xs). n = count_list xs t"
    and top_k_descending: "sorted_wrt (\<lambda>a b. snd b \<le> snd a) (top_k tie k xs)"
    and top_k_largest:
      "\<forall>t \<in> fst ` set (top_k tie k xs). \<forall>u \<in> set xs - fst ` set (top_k tie k xs).
          count_list xs u \<le> count_list xs t"
proof -
  let ?vc = "value_counts tie xs"
  let ?f = "\<lambda>r :: 'a \<times> nat. - int (snd r)"
  have tk: "top_k tie k xs = take k ?vc" by (simp add: top_k_def head_def)
  have sub: "set (take k ?vc) \<subseteq> (\<lambda>k. (k, count_list xs k)) ` set xs"
    using set_take_subset [of k ?vc] by (simp only: value_counts_set)
  show "length (top_k tie k xs) = min k (card (set xs))"
    by (simp add: tk value_counts_length min.commute)
  show "fst ` set (top_k tie k xs) \<subseteq> set xs"
    using sub by (auto simp add: tk)
  show "distinct (map fst (top_k tie k xs))"
    using value_counts_distinct [of tie xs] by (simp add: tk take_map [symmetric])
  show cnt: "\<forall>(t, n) \<in> set (top_k tie k xs). n = count_list xs t"
    using sub by (auto simp add: tk)
  have s: "sorted (map ?f (take k ?vc @ drop k ?vc))"
    using value_counts_sorted [of tie xs] by simp
  then have "sorted (map ?f (take k ?vc))"
    by (simp only: map_append sorted_append)
  then have "sorted_wrt (\<lambda>a b. ?f a \<le> ?f b) (take k ?vc)"
    by (simp only: sorted_map)
  then show "sorted_wrt (\<lambda>a b. snd b \<le> snd a) (top_k tie k xs)"
    by (simp add: tk)
  from s have "\<forall>a\<in>set (map ?f (take k ?vc)). \<forall>b\<in>set (map ?f (drop k ?vc)). a \<le> b"
    by (simp only: map_append sorted_append) blast
  then have cross: "\<forall>a\<in>set (take k ?vc). \<forall>b\<in>set (drop k ?vc). snd b \<le> snd a"
    by simp
  show "\<forall>t \<in> fst ` set (top_k tie k xs). \<forall>u \<in> set xs - fst ` set (top_k tie k xs).
          count_list xs u \<le> count_list xs t"
  proof (intro ballI)
    fix t u
    assume t: "t \<in> fst ` set (top_k tie k xs)" and u: "u \<in> set xs - fst ` set (top_k tie k xs)"
    from t cnt have a: "(t, count_list xs t) \<in> set (take k ?vc)"
      by (auto simp add: tk)
    from u have "(u, count_list xs u) \<in> set ?vc"
      by (simp add: value_counts_set)
    then have "(u, count_list xs u) \<in> set (take k ?vc) \<union> set (drop k ?vc)"
      by (simp only: set_append [symmetric] append_take_drop_id)
    moreover from u have "(u, count_list xs u) \<notin> set (take k ?vc)"
      by (force simp add: tk)
    ultimately have b: "(u, count_list xs u) \<in> set (drop k ?vc)" by blast
    from cross a b show "count_list xs u \<le> count_list xs t" by force
  qed
qed

text \<open>
  Claim C8, as the code has it. \<^verbatim>\<open>value_counts().head(k)\<close> returns \<open>k\<close> topics, or all
  of them when there are fewer; each is a topic of the frame, returned once and with its
  number of rows; the counts descend; and no topic left out has more rows than a topic
  returned. This holds whatever order the sort leaves equal counts in. The code names no
  second sort key: the order of topics with equal counts, and which of them are among the
  first \<open>k\<close>, is left to the sort.
\<close>

theorem top_k_properties:
  "length (top_k tie k xs) = min k (card (set xs))
   \<and> fst ` set (top_k tie k xs) \<subseteq> set xs
   \<and> distinct (map fst (top_k tie k xs))
   \<and> (\<forall>(t, n) \<in> set (top_k tie k xs). n = count_list xs t)
   \<and> sorted_wrt (\<lambda>a b. snd b \<le> snd a) (top_k tie k xs)
   \<and> (\<forall>t \<in> fst ` set (top_k tie k xs). \<forall>u \<in> set xs - fst ` set (top_k tie k xs).
          count_list xs u \<le> count_list xs t)"
  by (intro conjI)
     (rule top_k_length top_k_keys top_k_distinct top_k_counts top_k_descending
        top_k_largest)+

text \<open>
  The theorem at four rows with two topics tied for the second place, for both orders
  of equal counts.
\<close>

theorem top_k_properties_witness:
  "top_k first_seen 2 [''send'', ''exams'', ''send'', ''funding''] =
     [(''send'', 2), (''exams'', 1)]
   \<and> top_k last_seen 2 [''send'', ''exams'', ''send'', ''funding''] =
     [(''send'', 2), (''funding'', 1)]
   \<and> length (top_k first_seen 2 [''send'', ''exams'', ''send'', ''funding'']) = 2
   \<and> length (top_k last_seen 2 [''send'', ''exams'', ''send'', ''funding'']) = 2
   \<and> sorted_wrt (\<lambda>a b. snd b \<le> snd a)
        (top_k first_seen 2 [''send'', ''exams'', ''send'', ''funding''])
   \<and> sorted_wrt (\<lambda>a b. snd b \<le> snd a)
        (top_k last_seen 2 [''send'', ''exams'', ''send'', ''funding''])"
proof -
  let ?xs = "[''send'', ''exams'', ''send'', ''funding'']"
  have a: "top_k first_seen 2 ?xs = [(''send'', 2), (''exams'', 1)]"
    by code_simp
  have b: "top_k last_seen 2 ?xs = [(''send'', 2), (''funding'', 1)]"
    by code_simp
  have c: "min 2 (card (set ?xs)) = 2"
    by code_simp
  note t1 = top_k_properties [of first_seen 2 ?xs]
  note t2 = top_k_properties [of last_seen 2 ?xs]
  from t1 have "length (top_k first_seen 2 ?xs) = min 2 (card (set ?xs))"
    by (elim conjE)
  then have l1: "length (top_k first_seen 2 ?xs) = 2"
    by (simp only: c)
  from t2 have "length (top_k last_seen 2 ?xs) = min 2 (card (set ?xs))"
    by (elim conjE)
  then have l2: "length (top_k last_seen 2 ?xs) = 2"
    by (simp only: c)
  from t1 have s1: "sorted_wrt (\<lambda>a b. snd b \<le> snd a) (top_k first_seen 2 ?xs)"
    by (elim conjE)
  from t2 have s2: "sorted_wrt (\<lambda>a b. snd b \<le> snd a) (top_k last_seen 2 ?xs)"
    by (elim conjE)
  from a b l1 l2 s1 s2 show ?thesis by (intro conjI)
qed

text \<open>
  Claim C8 as stated fails in its last part. Two frames with the same count for every
  topic have different top topics, whether the sort leaves equal counts in the order of
  their first rows or in the reverse order, and on one frame the two orders give
  different top topics: a tie is decided by the rows and the sort, not by an order on
  the topics.
\<close>

theorem top_k_ties_follow_rows:
  "top_k first_seen 1 [''exams'', ''send''] = [(''exams'', 1)]
   \<and> top_k first_seen 1 [''send'', ''exams''] = [(''send'', 1)]
   \<and> top_k last_seen 1 [''exams'', ''send''] = [(''send'', 1)]
   \<and> top_k last_seen 1 [''send'', ''exams''] = [(''exams'', 1)]
   \<and> (\<forall>t. count_list [''exams'', ''send''] t = count_list [''send'', ''exams''] t)"
proof (intro conjI allI)
  show "top_k first_seen 1 [''exams'', ''send''] = [(''exams'', 1)]" by code_simp
  show "top_k first_seen 1 [''send'', ''exams''] = [(''send'', 1)]" by code_simp
  show "top_k last_seen 1 [''exams'', ''send''] = [(''send'', 1)]" by code_simp
  show "top_k last_seen 1 [''send'', ''exams''] = [(''exams'', 1)]" by code_simp
  show "count_list [''exams'', ''send''] t = count_list [''send'', ''exams''] t" for t
    by simp
qed

subsection \<open>The time series\<close>

lemma distinct_count_1:
  "distinct ks \<Longrightarrow> x \<in> set ks \<Longrightarrow> length (filter (\<lambda>k. x = k) ks) = 1"
  by (induction ks) (auto simp add: filter_empty_conv)

lemma group_sizes_total:
  assumes "distinct ks" and "key ` set df \<subseteq> set ks"
  shows "sum_list (map (\<lambda>k. length (filter (\<lambda>r. key r = k) df)) ks) = length df"
  using assms(2)
proof (induction df)
  case Nil
  then show ?case by simp
next
  case (Cons a df)
  then have a: "key a \<in> set ks" and sub: "key ` set df \<subseteq> set ks" by auto
  have "sum_list (map (\<lambda>k. length (filter (\<lambda>r. key r = k) (a # df))) ks) =
      sum_list (map (\<lambda>k. (if key a = k then 1 else 0) + length (filter (\<lambda>r. key r = k) df)) ks)"
    by (rule arg_cong [where f = sum_list]) (rule map_cong, auto)
  also have "\<dots> = length (filter (\<lambda>k. key a = k) ks)
      + sum_list (map (\<lambda>k. length (filter (\<lambda>r. key r = k) df)) ks)"
    by (simp only: sum_list_addf sum_list_indicator)
  also have "\<dots> = 1 + length df"
    by (simp only: distinct_count_1 [OF assms(1) a] Cons.IH [OF sub])
  finally show ?case by simp
qed

lemma groupby_size_total: "sum_list (map snd (groupby_size key df)) = length df"
proof -
  have "sum_list (map snd (groupby_size key df)) =
      sum_list (map (\<lambda>k. length (filter (\<lambda>r. key r = k) df)) (sort (unique (map key df))))"
    by (simp add: groupby_size_def comp_def)
  also have "\<dots> = length df"
    by (rule group_sizes_total) (simp_all add: distinct_unique set_unique)
  finally show ?thesis .
qed

lemma top_topics_facts:
  shows "length (top_topics tie df) \<le> 6"
    and "distinct (top_topics tie df)"
    and "set (top_topics tie df) \<subseteq> topics df"
    and "\<forall>t\<in>set (top_topics tie df). \<forall>u\<in>topics df - set (top_topics tie df).
           count_list (map topic_name df) u \<le> count_list (map topic_name df) t"
proof -
  show "length (top_topics tie df) \<le> 6"
    by (simp add: top_topics_def top_k_length)
  show "distinct (top_topics tie df)"
    by (simp only: top_topics_def top_k_distinct)
  show "set (top_topics tie df) \<subseteq> topics df"
    using top_k_keys [of tie 6 "map topic_name df"]
    by (simp add: top_topics_def topics_def)
  show "\<forall>t\<in>set (top_topics tie df). \<forall>u\<in>topics df - set (top_topics tie df).
           count_list (map topic_name df) u \<le> count_list (map topic_name df) t"
    using top_k_largest [of tie 6 "map topic_name df"]
    by (simp add: top_topics_def topics_def)
qed

lemma time_df_lookup:
  "map_of (time_df tie df) (d, t) =
     (if t \<in> set (top_topics tie df) \<and> (\<exists>r\<in>set df. date r = d \<and> topic_name r = t)
      then Some (length (filter (\<lambda>r. date r = d \<and> topic_name r = t) df))
      else None)"
proof -
  let ?P = "\<lambda>r. topic_name r \<in> set (top_topics tie df)"
  have m: "(d, t) \<in> (\<lambda>r. (date r, topic_name r)) ` set (filter ?P df) \<longleftrightarrow>
      t \<in> set (top_topics tie df) \<and> (\<exists>r\<in>set df. date r = d \<and> topic_name r = t)"
    by auto
  have "filter (\<lambda>r. (date r, topic_name r) = (d, t)) (filter ?P df) =
      filter (\<lambda>r. t \<in> set (top_topics tie df) \<and> date r = d \<and> topic_name r = t) df"
    by (auto intro: filter_cong)
  then have l: "t \<in> set (top_topics tie df) \<Longrightarrow>
      length (filter (\<lambda>r. (date r, topic_name r) = (d, t)) (filter ?P df)) =
      length (filter (\<lambda>r. date r = d \<and> topic_name r = t) df)"
    by simp
  show ?thesis
    unfolding time_df_def groupby_size_lookup m using l by simp
qed

lemma groupby_size_key_set: "fst ` set (groupby_size key df) = key ` set df"
proof -
  have "fst ` set (groupby_size key df) = set (map fst (groupby_size key df))"
    by simp
  also have "\<dots> = key ` set df"
    by (simp only: groupby_size_keys) simp
  finally show ?thesis .
qed

text \<open>
  Claim C9. The time series has a row for a date and a topic exactly when the topic is
  one of the top topics and the filtered frame has a row with that date and topic, and
  its count is the number of such rows. The top topics are the first six of
  \<^verbatim>\<open>value_counts\<close>: at most six topics of the frame, none with fewer rows than a topic
  left out. Every key of the series is a top topic and the counts add up to the number
  of rows with a top topic, so the rows of the other topics are counted nowhere.
\<close>

theorem time_df_top_topics:
  "map_of (time_df tie df) (d, t) =
     (if t \<in> set (top_topics tie df) \<and> (\<exists>r\<in>set df. date r = d \<and> topic_name r = t)
      then Some (length (filter (\<lambda>r. date r = d \<and> topic_name r = t) df))
      else None)
   \<and> distinct (map fst (time_df tie df))
   \<and> snd ` fst ` set (time_df tie df) \<subseteq> set (top_topics tie df)
   \<and> sum_list (map snd (time_df tie df)) =
       length (filter (\<lambda>r. topic_name r \<in> set (top_topics tie df)) df)
   \<and> top_topics tie df = map fst (head 6 (value_counts tie (map topic_name df)))
   \<and> length (top_topics tie df) \<le> 6
   \<and> distinct (top_topics tie df)
   \<and> set (top_topics tie df) \<subseteq> topics df
   \<and> (\<forall>t\<in>set (top_topics tie df). \<forall>u\<in>topics df - set (top_topics tie df).
         count_list (map topic_name df) u \<le> count_list (map topic_name df) t)"
proof -
  let ?top = "filter (\<lambda>r. topic_name r \<in> set (top_topics tie df)) df"
  have "fst ` set (time_df tie df) = (\<lambda>r. (date r, topic_name r)) ` set ?top"
    by (simp add: time_df_def groupby_size_key_set)
  then have k: "snd ` fst ` set (time_df tie df) \<subseteq> set (top_topics tie df)"
    by auto
  have d: "distinct (map fst (time_df tie df))"
    by (simp only: time_df_def groupby_size_distinct)
  have s: "sum_list (map snd (time_df tie df)) = length ?top"
    by (simp only: time_df_def groupby_size_total)
  have tt: "top_topics tie df = map fst (head 6 (value_counts tie (map topic_name df)))"
    by (simp only: top_topics_def top_k_def)
  show ?thesis
    by (intro conjI) (rule time_df_lookup d k s tt top_topics_facts)+
qed

text \<open>The theorem at a frame with seven topics, of which ``exams'' is left out.\<close>

theorem time_df_top_topics_witness:
  "map_of (time_df first_seen seven_topics_frame) (2, ''exams'') = None
   \<and> map_of (time_df first_seen seven_topics_frame) (1, ''send'') = Some 2
   \<and> sum_list (map snd (time_df first_seen seven_topics_frame)) = 12
   \<and> length (top_topics first_seen seven_topics_frame) \<le> 6"
proof -
  have e: "(if ''exams'' \<in> set (top_topics first_seen seven_topics_frame)
              \<and> (\<exists>r\<in>set seven_topics_frame. date r = 2 \<and> topic_name r = ''exams'')
            then Some (length (filter (\<lambda>r. date r = 2 \<and> topic_name r = ''exams'')
                   seven_topics_frame))
            else None) = None"
    by code_simp
  have f: "(if ''send'' \<in> set (top_topics first_seen seven_topics_frame)
              \<and> (\<exists>r\<in>set seven_topics_frame. date r = 1 \<and> topic_name r = ''send'')
            then Some (length (filter (\<lambda>r. date r = 1 \<and> topic_name r = ''send'')
                   seven_topics_frame))
            else None) = Some 2"
    by code_simp
  have n: "length (filter (\<lambda>r. topic_name r \<in> set (top_topics first_seen seven_topics_frame))
      seven_topics_frame) = 12"
    by code_simp
  note t1 = time_df_top_topics [of first_seen seven_topics_frame 2 "''exams''"]
  note t2 = time_df_top_topics [of first_seen seven_topics_frame 1 "''send''"]
  from t1 have a: "map_of (time_df first_seen seven_topics_frame) (2, ''exams'') = None"
    unfolding e by (elim conjE)
  from t2 have b: "map_of (time_df first_seen seven_topics_frame) (1, ''send'') = Some 2"
    unfolding f by (elim conjE)
  from t1 have c: "sum_list (map snd (time_df first_seen seven_topics_frame)) = 12"
    unfolding n by (elim conjE)
  from t1 have d: "length (top_topics first_seen seven_topics_frame) \<le> 6"
    by (elim conjE)
  from a b c d show ?thesis by (intro conjI)
qed

subsection \<open>The empty selection and the article explorer\<close>

lemma article_explorer_Nil: "article_explorer [] i j = Inl IndexError"
  by (simp add: article_explorer_def selectbox_def explorer_subset_def article_text_def
      iloc0_def)

text \<open>
  Claim C6, evaluated on the code. With an empty selection the filtered frame is empty.
  The counts by period, by date and by source are empty, the top topics are empty and the election
  shift shows the ``insufficient data'' message; but the article explorer raises
  \<^verbatim>\<open>IndexError\<close>: both select boxes return \<^verbatim>\<open>None\<close>, no row is selected, and
  \<^verbatim>\<open>.iloc[0]\<close> of line 238 has no first element.
\<close>

theorem empty_selection_explorer_raises:
  "df_filt df [] ts ps = []
   \<and> rank [] = []
   \<and> election_shift tie [] = Inr InsufficientData
   \<and> top_topics tie [] = []
   \<and> time_df tie [] = []
   \<and> heat_df [] = []
   \<and> top_topics_df tie [] = []
   \<and> article_explorer [] i j = Inl IndexError
   \<and> article_explorer (df_filt df [] ts ps) i j = Inl IndexError"
proof -
  have f: "df_filt df [] ts ps = []" by (simp add: df_filt_def)
  have e: "election_shift tie [] = Inr InsufficientData"
    by (rule election_shift_degraded) (simp add: periods_def)
  have v: "value_counts tie ([] :: string list) = []"
    by (simp add: value_counts_def sort_values_desc_def)
  have g: "rank [] = []" "time_df tie [] = []" "heat_df [] = []"
    by (simp_all add: rank_def time_df_def heat_df_def groupby_size_def)
  have t: "top_topics tie [] = []" "top_topics_df tie [] = []"
    by (simp_all add: top_topics_def top_topics_df_def top_k_def head_def v)
  show ?thesis
    by (simp only: f e g t article_explorer_Nil simp_thms)
qed

lemma iloc0_map:
  "iloc0 (map f xs) = (case xs of [] \<Rightarrow> Inl IndexError | r # _ \<Rightarrow> Inr (f r))"
  by (cases xs) (simp_all add: iloc0_def)

lemma article_text_first_match:
  "article_text df selected_topic selected_id =
     (case filter (\<lambda>r. Some (topic_name r) = selected_topic \<and> Some (article_id r) = selected_id) df
      of [] \<Rightarrow> Inl IndexError | r # _ \<Rightarrow> Inr (text_clean r))"
  by (simp only: article_text_def explorer_subset_def filter_filter iloc0_map)

lemma article_explorer_valid:
  assumes "i < length (unique (map topic_name df))"
    and "j < length (explorer_subset df (selectbox (unique (map topic_name df)) i))"
  shows "\<exists>r. r \<in> set df
     \<and> Some (topic_name r) = selectbox (unique (map topic_name df)) i
     \<and> Some (article_id r) =
         selectbox (map article_id
           (explorer_subset df (selectbox (unique (map topic_name df)) i))) j
     \<and> article_explorer df i j = Inr (text_clean r)"
proof -
  let ?st = "selectbox (unique (map topic_name df)) i"
  let ?sub = "explorer_subset df ?st"
  let ?sid = "selectbox (map article_id ?sub) j"
  let ?hits = "filter (\<lambda>r. Some (topic_name r) = ?st \<and> Some (article_id r) = ?sid) df"
  have sid: "?sid = Some (article_id (?sub ! j))"
    using assms(2) by (simp add: selectbox_def)
  have "?sub ! j \<in> set ?sub" using assms(2) by simp
  then have m: "?sub ! j \<in> set df" "Some (topic_name (?sub ! j)) = ?st"
    unfolding explorer_subset_def by simp_all
  have in_hits: "x \<in> set ?hits"
    if "x \<in> set df" and "Some (topic_name x) = ?st" and "Some (article_id x) = ?sid" for x
    using that by simp
  have "?sub ! j \<in> set ?hits"
    by (rule in_hits) (simp_all only: m sid)
  then obtain r rest where h: "?hits = r # rest"
    by (cases ?hits) auto
  then have "r \<in> set ?hits" by simp
  then have r: "r \<in> set df" "Some (topic_name r) = ?st" "Some (article_id r) = ?sid"
    by auto
  have "article_explorer df i j = article_text df ?st ?sid"
    by (simp add: article_explorer_def Let_def)
  also have "\<dots> = Inr (text_clean r)"
    by (simp only: article_text_first_match h list.case)
  finally show ?thesis using r by blast
qed

lemma article_explorer_default:
  assumes "df \<noteq> []"
  shows "0 < length (unique (map topic_name df))"
    and "0 < length (explorer_subset df (selectbox (unique (map topic_name df)) 0))"
proof -
  from assms obtain a rest where df: "df = a # rest" by (cases df) auto
  show "0 < length (unique (map topic_name df))" by (simp add: df)
  have "selectbox (unique (map topic_name df)) 0 = Some (topic_name a)"
    by (simp add: df selectbox_def)
  then show "0 < length (explorer_subset df (selectbox (unique (map topic_name df)) 0))"
    by (simp add: df explorer_subset_def)
qed

lemma article_explorer_raises_iff:
  "article_explorer df i j = Inl IndexError \<longleftrightarrow>
     \<not> (i < length (unique (map topic_name df))
        \<and> j < length (explorer_subset df (selectbox (unique (map topic_name df)) i)))"
proof (cases "i < length (unique (map topic_name df))
    \<and> j < length (explorer_subset df (selectbox (unique (map topic_name df)) i))")
  case True
  then have a: "i < length (unique (map topic_name df))"
    and b: "j < length (explorer_subset df (selectbox (unique (map topic_name df)) i))"
    by simp_all
  from article_explorer_valid [OF a b]
  have "article_explorer df i j \<noteq> Inl IndexError"
    by (elim exE conjE) simp
  with True show ?thesis by simp
next
  case False
  let ?st = "selectbox (unique (map topic_name df)) i"
  have "selectbox (map article_id (explorer_subset df ?st)) j = None"
  proof (cases "i < length (unique (map topic_name df))")
    case True
    with False show ?thesis by (simp add: selectbox_def)
  next
    case False
    then show ?thesis by (simp add: selectbox_def explorer_subset_def)
  qed
  then have "article_explorer df i j = Inl IndexError"
    by (simp add: article_explorer_def Let_def article_text_def iloc0_def)
  with False show ?thesis by simp
qed

lemma article_explorer_offers_iff:
  "0 < length (unique (map topic_name df))
     \<and> 0 < length (explorer_subset df (selectbox (unique (map topic_name df)) 0))
   \<longleftrightarrow> df \<noteq> []"
proof (cases "df = []")
  case True
  then show ?thesis by simp
next
  case False
  with article_explorer_default [OF False] show ?thesis by simp
qed

text \<open>
  Claim C7, evaluated on the code. The lookup of lines 228--238 returns the text of the
  first row of the filtered frame with the selected topic and the selected article id,
  and raises \<^verbatim>\<open>IndexError\<close> when there is no such row; the script has no ``not found''
  result and handles no exception. The two values come from select boxes filled from the
  frame, so that the lookup raises exactly when a box has no option at the position
  picked. On a frame that is not empty both boxes offer their first position and a text
  is returned; on the empty frame both boxes return \<^verbatim>\<open>None\<close> and the lookup raises.
\<close>

theorem article_lookup_raises_on_empty:
  "selectbox (unique (map topic_name ([] :: frame))) i = None
   \<and> selectbox (map article_id (explorer_subset [] None)) j = None
   \<and> article_text [] None None = Inl IndexError
   \<and> article_explorer [] i j = Inl IndexError
   \<and> article_text df selected_topic selected_id =
       (case filter (\<lambda>r. Some (topic_name r) = selected_topic
                         \<and> Some (article_id r) = selected_id) df
        of [] \<Rightarrow> Inl IndexError | r # _ \<Rightarrow> Inr (text_clean r))
   \<and> (article_explorer df i j = Inl IndexError \<longleftrightarrow>
        \<not> (i < length (unique (map topic_name df))
           \<and> j < length (explorer_subset df (selectbox (unique (map topic_name df)) i))))
   \<and> (0 < length (unique (map topic_name df))
        \<and> 0 < length (explorer_subset df (selectbox (unique (map topic_name df)) 0))
      \<longleftrightarrow> df \<noteq> [])
   \<and> (article_explorer df 0 0 = Inl IndexError \<longleftrightarrow> df = [])"
proof (intro conjI)
  show "selectbox (unique (map topic_name ([] :: frame))) i = None"
    by (simp add: selectbox_def)
  show "selectbox (map article_id (explorer_subset [] None)) j = None"
    by (simp add: selectbox_def explorer_subset_def)
  show "article_text [] None None = Inl IndexError"
    by (simp add: article_text_def explorer_subset_def iloc0_def)
  show "article_explorer [] i j = Inl IndexError"
    by (rule article_explorer_Nil)
  show "article_text df selected_topic selected_id =
       (case filter (\<lambda>r. Some (topic_name r) = selected_topic
                         \<and> Some (article_id r) = selected_id) df
        of [] \<Rightarrow> Inl IndexError | r # _ \<Rightarrow> Inr (text_clean r))"
    by (rule article_text_first_match)
  show "article_explorer df i j = Inl IndexError \<longleftrightarrow>
        \<not> (i < length (unique (map topic_name df))
           \<and> j < length (explorer_subset df (selectbox (unique (map topic_name df)) i)))"
    by (rule article_explorer_raises_iff)
  show "0 < length (unique (map topic_name df))
        \<and> 0 < length (explorer_subset df (selectbox (unique (map topic_name df)) 0))
      \<longleftrightarrow> df \<noteq> []"
    by (rule article_explorer_offers_iff)
  show "article_explorer df 0 0 = Inl IndexError \<longleftrightarrow> df = []"
    using article_explorer_raises_iff [of df 0 0] article_explorer_offers_iff [of df]
    by blast
qed

end
